theory Spec2Isabelle
  imports Main
begin

text \<open>
  A model of the backup tool's planner, catalog adapter, SSH executor and run
  coordinator. The sources are \<^verbatim>\<open>planner.ts\<close> (\<^verbatim>\<open>src/unnamed/part_001\<close>),
  \<^verbatim>\<open>mongodb.ts\<close> (\<^verbatim>\<open>src/unnamed/part_000\<close>), \<^verbatim>\<open>run.ts\<close> (the first 51 lines of
  \<^verbatim>\<open>src/src/run.ts\<close>) and two revisions each of \<^verbatim>\<open>executorHelpers.ts\<close> (the rest of
  \<^verbatim>\<open>src/src/run.ts\<close>, with the \<^verbatim>\<open>scp\<close> methods, and
  \<^verbatim>\<open>src/src/executorHelpers.ts\<close>, without them) and of \<^verbatim>\<open>executor.ts\<close>
  (\<^verbatim>\<open>src/src/executor.ts\<close>, which uses the \<^verbatim>\<open>scp\<close> methods, and
  \<^verbatim>\<open>src/unnamed/part_002\<close>, which does not).
\<close>

section \<open>Data model (planner.ts)\<close>

text \<open>
  The types of \<^verbatim>\<open>planner.ts\<close>. A JavaScript object used as a dictionary
  (\<^verbatim>\<open>Record<string, Host>\<close>, \<^verbatim>\<open>Host.ssh\<close>) is a finite map over its own
  properties: \<^verbatim>\<open>hosts\<close> is a partial function, \<^verbatim>\<open>ssh\<close> an association list read
  with \<open>map_of\<close> (its keys are enumerated by \<^verbatim>\<open>Object.keys\<close> in
  \<^verbatim>\<open>fetchHosts\<close>). An optional field is an \<open>option\<close>. The field \<^verbatim>\<open>_id\<close> is
  written \<open>host_id\<close> / \<open>bp_id\<close>, since an Isabelle name cannot start with an underscore.
\<close>

record SSHConfig =
  username :: string
  ssh_host :: string
  privateKeyPath :: string
  passphrase :: "string option"

datatype Availability = Reachable | Unreachable | NoData

record Host =
  host_id :: string
  agent :: "bool option"
  available :: "Availability option"
  ssh :: "(string \<times> SSHConfig) list"

datatype BackupStrategy =
    Files (paths: "string list")
  | MongoDB (connectionUrl: string)

text \<open>\<^verbatim>\<open>Destination\<close> has the single variant \<^verbatim>\<open>type: "host"\<close>.\<close>

datatype Destination = HostDestination (dest_host: string) (dest_path: string)

record Hook =
  cwd :: string
  cmd :: string

record Hooks =
  pre :: "Hook option"
  post :: "Hook option"

datatype Interval = Daily | Weekly | Monthly

datatype BlueprintMode =
    SshAgentMode (bm_host: string) (bm_hooks: "Hooks option")
      (bm_strategy: BackupStrategy) (bm_destinations: "Destination list")
  | DummyMode

record Blueprint =
  bp_id :: string
  interval :: Interval
  mode :: BlueprintMode

text \<open>
  \<^verbatim>\<open>retainOnHost: { path } | false\<close> and \<^verbatim>\<open>downloadLocally: { path } | boolean\<close>.
\<close>

datatype Retain = RetainPath string | RetainFalse

datatype Download = DownloadPath string | DownloadFlag bool

record CloneStrategy =
  retainOnHost :: Retain
  downloadLocally :: Download
  directlyCloneTo :: "Destination list"
  redirectCloneTo :: "Destination list"
  receiveCloneFrom :: "Destination list"

datatype Plan =
    PlanSshAgent (plan_id: string) (plan_host: Host) (plan_hooks: "Hooks option")
      (plan_strategy: BackupStrategy) (plan_clone: CloneStrategy)
  | PlanSkipped (plan_id: string)
  | PlanFailed (plan_id: string)

text \<open>JavaScript truthiness of the two retention fields.\<close>

fun retain_truthy :: "Retain \<Rightarrow> bool" where
  "retain_truthy (RetainPath p) = True"
| "retain_truthy RetainFalse = False"

fun download_truthy :: "Download \<Rightarrow> bool" where
  "download_truthy (DownloadPath p) = True"
| "download_truthy (DownloadFlag b) = b"

section \<open>The Date object (ECMAScript time values)\<close>

text \<open>
  \<^verbatim>\<open>createPlan\<close> advances \<^verbatim>\<open>latestRun\<close> with \<^verbatim>\<open>setDate\<close> and \<^verbatim>\<open>setMonth\<close>
  and compares time values. The time value of a Date is an integer number of
  milliseconds since the epoch, or NaN for an invalid Date: an \<open>int option\<close>, with
  \<open>None\<close> for NaN. The functions below are the abstract operations of the ECMAScript
  specification (section "Date Objects") on finite values.
\<close>

definition msPerDay :: int where
  "msPerDay = 86400000"

definition Day :: "int \<Rightarrow> int" where
  "Day t = t div msPerDay"

definition TimeWithinDay :: "int \<Rightarrow> int" where
  "TimeWithinDay t = t mod msPerDay"

definition DayFromYear :: "int \<Rightarrow> int" where
  "DayFromYear y =
     365 * (y - 1970) + (y - 1969) div 4 - (y - 1901) div 100 + (y - 1601) div 400"

text \<open>
  \<^verbatim>\<open>YearFromTime(t)\<close> is the largest \<open>y\<close> with \<open>DayFromYear y \<le> Day t\<close>. It is
  computed from the estimate \<open>1970 + 400 * day div 146097\<close> (a year has 365.2425 days on
  average), which is off by at most one (\<open>YearFromTime_largest\<close> below).
\<close>

definition YearFromDay :: "int \<Rightarrow> int" where
  "YearFromDay d =
     (let y0 = 1970 + (400 * d) div 146097
      in if d < DayFromYear y0 then y0 - 1
         else if DayFromYear (y0 + 1) \<le> d then y0 + 1
         else y0)"

definition YearFromTime :: "int \<Rightarrow> int" where
  "YearFromTime t = YearFromDay (Day t)"

definition DaysInYear :: "int \<Rightarrow> int" where
  "DaysInYear y =
     (if y mod 4 \<noteq> 0 then 365
      else if y mod 100 \<noteq> 0 then 366
      else if y mod 400 \<noteq> 0 then 365
      else 366)"

definition InLeapYear :: "int \<Rightarrow> int" where
  "InLeapYear t = (if DaysInYear (YearFromTime t) = 366 then 1 else 0)"

definition DayWithinYear :: "int \<Rightarrow> int" where
  "DayWithinYear t = Day t - DayFromYear (YearFromTime t)"

text \<open>The day number, within its year, of the first day of month \<open>m\<close> (0 to 11).\<close>

definition DaysBeforeMonth :: "int \<Rightarrow> int \<Rightarrow> int" where
  "DaysBeforeMonth leap m =
     (if m = 0 then 0
      else if m = 1 then 31
      else if m = 2 then 59 + leap
      else if m = 3 then 90 + leap
      else if m = 4 then 120 + leap
      else if m = 5 then 151 + leap
      else if m = 6 then 181 + leap
      else if m = 7 then 212 + leap
      else if m = 8 then 243 + leap
      else if m = 9 then 273 + leap
      else if m = 10 then 304 + leap
      else 334 + leap)"

definition MonthFromTime :: "int \<Rightarrow> int" where
  "MonthFromTime t =
     (let d = DayWithinYear t; leap = InLeapYear t
      in if d < 31 then 0
         else if d < 59 + leap then 1
         else if d < 90 + leap then 2
         else if d < 120 + leap then 3
         else if d < 151 + leap then 4
         else if d < 181 + leap then 5
         else if d < 212 + leap then 6
         else if d < 243 + leap then 7
         else if d < 273 + leap then 8
         else if d < 304 + leap then 9
         else if d < 334 + leap then 10
         else 11)"

definition DateFromTime :: "int \<Rightarrow> int" where
  "DateFromTime t =
     DayWithinYear t - DaysBeforeMonth (InLeapYear t) (MonthFromTime t) + 1"

text \<open>
  \<^verbatim>\<open>MakeDay(year, month, date)\<close>: the day number of the first of the month
  \<open>month mod 12\<close> of the year \<open>year + month div 12\<close>, plus \<open>date - 1\<close>.
\<close>

definition MakeDay :: "int \<Rightarrow> int \<Rightarrow> int \<Rightarrow> int" where
  "MakeDay year month date =
     (let ym = year + month div 12; mn = month mod 12
      in DayFromYear ym
         + DaysBeforeMonth (if DaysInYear ym = 366 then 1 else 0) mn
         + date - 1)"

definition MakeDate :: "int \<Rightarrow> int \<Rightarrow> int" where
  "MakeDate day time = day * msPerDay + time"

text \<open>
  The local time zone. The ECMAScript specification leaves \<^verbatim>\<open>LocalTZA(t, isUTC)\<close>
  to the host environment: \<open>offsetAtUTC z t\<close> is the offset, in milliseconds, in force
  at the UTC time \<open>t\<close> (\<^verbatim>\<open>LocalTZA(t, true)\<close>), and \<open>offsetAtLocal z t\<close> the offset
  by which the local time \<open>t\<close> is read (\<^verbatim>\<open>LocalTZA(t, false)\<close>; for a local time that
  a daylight-saving change skips or repeats, the offset before the change).
\<close>

record Zone =
  offsetAtUTC :: "int \<Rightarrow> int"
  offsetAtLocal :: "int \<Rightarrow> int"

definition LocalTime :: "Zone \<Rightarrow> int \<Rightarrow> int" where
  "LocalTime z t = t + offsetAtUTC z t"

definition UTC_of :: "Zone \<Rightarrow> int \<Rightarrow> int" where
  "UTC_of z t = t - offsetAtLocal z t"

text \<open>\<^verbatim>\<open>TimeClip\<close>: a time value is at most 8.64e15 in absolute value, or NaN.\<close>

definition TimeClip :: "int \<Rightarrow> int option" where
  "TimeClip t = (if 8640000000000000 < \<bar>t\<bar> then None else Some t)"

text \<open>
  The methods of \<^verbatim>\<open>Date.prototype\<close> that \<^verbatim>\<open>createPlan\<close> calls, on the time value
  of the object; \<^verbatim>\<open>setDate\<close> and \<^verbatim>\<open>setMonth\<close> return the new time value. With the
  time value or the argument NaN the result is NaN. \<open>Number_plus\<close> is \<^verbatim>\<open>+\<close> with a
  number literal on the right and \<open>Number_gt\<close> is \<^verbatim>\<open>>\<close> with a number that is not NaN
  on the right: a comparison with NaN is false.
\<close>

definition Date_getDate :: "Zone \<Rightarrow> int option \<Rightarrow> int option" where
  "Date_getDate z tv = map_option (\<lambda>t. DateFromTime (LocalTime z t)) tv"

definition Date_getMonth :: "Zone \<Rightarrow> int option \<Rightarrow> int option" where
  "Date_getMonth z tv = map_option (\<lambda>t. MonthFromTime (LocalTime z t)) tv"

definition Date_setDate :: "Zone \<Rightarrow> int option \<Rightarrow> int option \<Rightarrow> int option" where
  "Date_setDate z tv date =
     (case tv of
        None \<Rightarrow> None
      | Some t0 \<Rightarrow>
          (case date of
             None \<Rightarrow> None
           | Some dt \<Rightarrow>
               (let t = LocalTime z t0
                in TimeClip (UTC_of z
                     (MakeDate (MakeDay (YearFromTime t) (MonthFromTime t) dt)
                        (TimeWithinDay t))))))"

definition Date_setMonth :: "Zone \<Rightarrow> int option \<Rightarrow> int option \<Rightarrow> int option" where
  "Date_setMonth z tv month =
     (case tv of
        None \<Rightarrow> None
      | Some t0 \<Rightarrow>
          (case month of
             None \<Rightarrow> None
           | Some m \<Rightarrow>
               (let t = LocalTime z t0
                in TimeClip (UTC_of z
                     (MakeDate (MakeDay (YearFromTime t) m (DateFromTime t))
                        (TimeWithinDay t))))))"

definition Number_plus :: "int option \<Rightarrow> int \<Rightarrow> int option" where
  "Number_plus a k = map_option (\<lambda>x. x + k) a"

definition Number_gt :: "int option \<Rightarrow> int \<Rightarrow> bool" where
  "Number_gt a b = (case a of None \<Rightarrow> False | Some x \<Rightarrow> b < x)"

text \<open>
  Time zones for the examples: a fixed offset; UTC; and Central European Time in 2024,
  one hour ahead of UTC and two hours ahead between 31 March, 01:00 UTC, and 27 October,
  01:00 UTC.
\<close>

definition fixedZone :: "int \<Rightarrow> Zone" where
  "fixedZone off = \<lparr> offsetAtUTC = (\<lambda>t. off), offsetAtLocal = (\<lambda>t. off) \<rparr>"

definition utcZone :: Zone where
  "utcZone = fixedZone 0"

definition centralEurope2024 :: Zone where
  "centralEurope2024 =
     \<lparr> offsetAtUTC = (\<lambda>t. if 1711846800000 \<le> t \<and> t < 1729990800000 then 7200000 else 3600000),
       offsetAtLocal = (\<lambda>t. if 1711854000000 \<le> t \<and> t < 1729998000000 then 7200000 else 3600000) \<rparr>"

text \<open>
  The calendar as the specification of the planner words it: the year, month (0 to 11)
  and day of the month of a local time; the length of a month; the month after a month;
  and the date one calendar month later, which keeps the day of the month where the
  following month has it and otherwise runs past the end of that month into the next.
\<close>

definition dateFields :: "int \<Rightarrow> int \<times> int \<times> int" where
  "dateFields t = (YearFromTime t, MonthFromTime t, DateFromTime t)"

definition DaysInMonth :: "int \<Rightarrow> int \<Rightarrow> int" where
  "DaysInMonth y m =
     (if m = 1 then (if DaysInYear y = 366 then 29 else 28)
      else if m = 3 \<or> m = 5 \<or> m = 8 \<or> m = 10 then 30
      else 31)"

definition followingMonth :: "int \<times> int \<Rightarrow> int \<times> int" where
  "followingMonth ym = (case ym of (y, m) \<Rightarrow> if m = 11 then (y + 1, 0) else (y, m + 1))"

definition oneCalendarMonthLater :: "int \<times> int \<times> int \<Rightarrow> int \<times> int \<times> int" where
  "oneCalendarMonthLater ymd =
     (case ymd of (y, m, d) \<Rightarrow>
        (case followingMonth (y, m) of (y1, m1) \<Rightarrow>
           if d \<le> DaysInMonth y1 m1 then (y1, m1, d)
           else (case followingMonth (y1, m1) of (y2, m2) \<Rightarrow> (y2, m2, d - DaysInMonth y1 m1))))"

section \<open>The planner (planner.ts, createPlan)\<close>

text \<open>
  What \<^verbatim>\<open>createPlan\<close> reads from outside its arguments: the clock
  (\<^verbatim>\<open>new Date()\<close>, whose time value is never NaN) and the local time zone.
\<close>

record Clock =
  now :: int
  zone :: Zone

text \<open>
  The \<^verbatim>\<open>switch (blueprint.interval)\<close>: the new time value of \<^verbatim>\<open>latestRun\<close>.
\<close>

definition advance :: "Zone \<Rightarrow> Interval \<Rightarrow> int option \<Rightarrow> int option" where
  "advance z iv tv =
     (case iv of
        Daily \<Rightarrow> Date_setDate z tv (Number_plus (Date_getDate z tv) 1)
      | Weekly \<Rightarrow> Date_setDate z tv (Number_plus (Date_getDate z tv) 7)
      | Monthly \<Rightarrow> Date_setMonth z tv (Number_plus (Date_getMonth z tv) 1))"

text \<open>The strings thrown inside the \<^verbatim>\<open>try\<close> block, one constructor each.\<close>

datatype PlanError =
    HostDoesNotExist string
  | HostIsUnavailable
  | AgentHostDoesNotExist string
  | HostUnreachableFromAgent string
  | NoViableDestinations

text \<open>
  The filter that computes \<^verbatim>\<open>destinations\<close> (lines 206 to 228). Its \<^verbatim>\<open>else\<close>
  branch (\<^verbatim>\<open>throw "unimplemented"\<close>) needs a destination whose type is not
  \<^verbatim>\<open>"host"\<close>, which the type \<open>Destination\<close> does not have.
\<close>

definition keepDestination :: "(string \<rightharpoonup> Host) \<Rightarrow> Host \<Rightarrow> string \<Rightarrow> Destination \<Rightarrow> bool" where
  "keepDestination hosts host agentId d =
     (if dest_host d = agentId \<or> dest_host d = host_id host then False
      else (case hosts (dest_host d) of
              None \<Rightarrow> False
            | Some destinationHost \<Rightarrow>
                if available destinationHost = Some Unreachable then False else True))"

text \<open>\<^verbatim>\<open>typeof hosts[destination.host]?.ssh[host._id] !== "undefined"\<close>.\<close>

definition destinationReachesHost :: "(string \<rightharpoonup> Host) \<Rightarrow> Host \<Rightarrow> Destination \<Rightarrow> bool" where
  "destinationReachesHost hosts host d =
     (case hosts (dest_host d) of
        None \<Rightarrow> False
      | Some dh \<Rightarrow> map_of (ssh dh) (host_id host) \<noteq> None)"

text \<open>\<^verbatim>\<open>typeof host.ssh[destination.host] !== "undefined"\<close>.\<close>

definition hostReachesDestination :: "Host \<Rightarrow> Destination \<Rightarrow> bool" where
  "hostReachesDestination host d = (map_of (ssh host) (dest_host d) \<noteq> None)"

text \<open>The object literal \<^verbatim>\<open>clone\<close> (lines 182 to 281).\<close>

definition buildClone ::
  "(string \<rightharpoonup> Host) \<Rightarrow> Host \<Rightarrow> string \<Rightarrow> string \<Rightarrow> Destination list \<Rightarrow> CloneStrategy" where
  "buildClone hosts host blueprintHost agentId dests =
     (let destinationHost = find (\<lambda>d. dest_host d = blueprintHost) dests;
          agentHost = find (\<lambda>d. dest_host d = agentId) dests;
          destinations = filter (keepDestination hosts host agentId) dests
      in \<lparr> retainOnHost =
             (case destinationHost of Some d \<Rightarrow> RetainPath (dest_path d) | None \<Rightarrow> RetainFalse),
           downloadLocally =
             (case agentHost of Some d \<Rightarrow> DownloadPath (dest_path d) | None \<Rightarrow> DownloadFlag False),
           directlyCloneTo =
             filter (\<lambda>d. if \<not> hostReachesDestination host d then False else True) destinations,
           redirectCloneTo =
             filter (\<lambda>d. if hostReachesDestination host d \<or> destinationReachesHost hosts host d
                          then False else True) destinations,
           receiveCloneFrom =
             filter (\<lambda>d. if hostReachesDestination host d \<or> \<not> destinationReachesHost hosts host d
                          then False else True) destinations \<rparr>)"

text \<open>
  The body of the \<^verbatim>\<open>try\<close> block for an \<^verbatim>\<open>ssh-agent\<close> blueprint: \<open>Inl\<close> is a
  \<^verbatim>\<open>throw\<close>. \<^verbatim>\<open>!host.available\<close> is JavaScript truthiness: of the values the field
  can hold, only \<^verbatim>\<open>undefined\<close> is falsy (the three strings are non-empty).
\<close>

definition planSshAgent ::
  "(string \<rightharpoonup> Host) \<Rightarrow> string \<Rightarrow> string \<Rightarrow> Hooks option \<Rightarrow> BackupStrategy
     \<Rightarrow> Destination list \<Rightarrow> string \<Rightarrow> PlanError + Plan" where
  "planSshAgent hosts bid blueprintHost hks strat dests agentId =
     (case hosts blueprintHost of
        None \<Rightarrow> Inl (HostDoesNotExist blueprintHost)
      | Some host \<Rightarrow>
          if available host = None then Inl HostIsUnavailable
          else (case hosts agentId of
                  None \<Rightarrow> Inl (AgentHostDoesNotExist agentId)
                | Some agentRecord \<Rightarrow>
                    if map_of (ssh agentRecord) blueprintHost = None
                    then Inl (HostUnreachableFromAgent blueprintHost)
                    else
                      (let clone = buildClone hosts host blueprintHost agentId dests
                       in if redirectCloneTo clone = [] \<and> directlyCloneTo clone = []
                             \<and> \<not> retain_truthy (retainOnHost clone)
                             \<and> \<not> download_truthy (downloadLocally clone)
                          then Inl NoViableDestinations
                          else Inr (PlanSshAgent bid host hks strat
                                 (if redirectCloneTo clone \<noteq> []
                                     \<and> \<not> download_truthy (downloadLocally clone)
                                  then clone\<lparr>downloadLocally := DownloadFlag True\<rparr>
                                  else clone)))))"

text \<open>The \<^verbatim>\<open>try\<close>/\<^verbatim>\<open>catch\<close> (lines 164 to 319): the mode dispatch.\<close>

definition modeDispatch :: "(string \<rightharpoonup> Host) \<Rightarrow> Blueprint \<Rightarrow> string \<Rightarrow> Plan" where
  "modeDispatch hosts blueprint agentId =
     (case mode blueprint of
        DummyMode \<Rightarrow> PlanSkipped (bp_id blueprint)
      | SshAgentMode h hks strat dests \<Rightarrow>
          (case planSshAgent hosts (bp_id blueprint) h hks strat dests agentId of
             Inl err \<Rightarrow> PlanFailed (bp_id blueprint)
           | Inr plan \<Rightarrow> plan))"

text \<open>
  \<^verbatim>\<open>createPlan(hosts, blueprint, latestRun, agent)\<close>. \<^verbatim>\<open>latestRun\<close> is a Date
  object (its time value) or \<^verbatim>\<open>undefined\<close>; \<^verbatim>\<open>setDate\<close> and \<^verbatim>\<open>setMonth\<close>
  change the object the caller passed, so the function returns the plan together with
  the time value the caller's object holds afterwards. The test is
  \<^verbatim>\<open>+latestRun > +new Date()\<close>. Console output is not modelled.
\<close>

definition createPlan ::
  "Clock \<Rightarrow> (string \<rightharpoonup> Host) \<Rightarrow> Blueprint \<Rightarrow> int option option \<Rightarrow> string
     \<Rightarrow> Plan \<times> int option option" where
  "createPlan clock hosts blueprint latestRun agentId =
     (case latestRun of
        None \<Rightarrow> (modeDispatch hosts blueprint agentId, None)
      | Some tv \<Rightarrow>
          (let tv' = advance (zone clock) (interval blueprint) tv
           in if Number_gt tv' (now clock) then (PlanSkipped (bp_id blueprint), Some tv')
              else (modeDispatch hosts blueprint agentId, Some tv')))"

section \<open>The catalog adapter (mongodb.ts, fetchHosts)\<close>

text \<open>
  A promise is settled one way or the other. \<^verbatim>\<open>NodeSSH.connect\<close> is an
  \<^verbatim>\<open>async\<close> method: a call returns a promise and never throws; the failure of the
  connection is the rejection of that promise. A rejection becomes an exception of the
  caller only where the promise is awaited (\<open>await\<close>); an expression statement that is
  not awaited drops the promise and completes normally (\<open>dropPromise\<close>).
\<close>

datatype 'a promise = Fulfilled 'a | RejectedWith string

definition NodeSSH_connect :: "(SSHConfig \<Rightarrow> string option) \<Rightarrow> SSHConfig \<Rightarrow> unit promise" where
  "NodeSSH_connect network c =
     (case network c of None \<Rightarrow> Fulfilled () | Some err \<Rightarrow> RejectedWith err)"

fun await :: "'a promise \<Rightarrow> string + 'a" where
  "await (Fulfilled v) = Inr v"
| "await (RejectedWith err) = Inl err"

fun dropPromise :: "'a promise \<Rightarrow> string + unit" where
  "dropPromise p = Inr ()"

text \<open>
  The \<^verbatim>\<open>try\<close>/\<^verbatim>\<open>catch\<close> of lines 28 to 36: the value assigned to
  \<^verbatim>\<open>hosts[hostId].available\<close>. The source writes \<^verbatim>\<open>ssh.connect(sshConfig);\<close>
  without \<^verbatim>\<open>await\<close>; \<^verbatim>\<open>ssh.dispose()\<close> is synchronous and does not throw.
\<close>

definition probe :: "(SSHConfig \<Rightarrow> string option) \<Rightarrow> SSHConfig \<Rightarrow> Availability" where
  "probe network sshConfig =
     (case dropPromise (NodeSSH_connect network sshConfig) of
        Inr u \<Rightarrow> Reachable
      | Inl err \<Rightarrow> Unreachable)"

text \<open>
  The same block with the connection awaited, as the specification describes it; it is
  not what the source does and serves only for comparison.
\<close>

definition probe_awaited :: "(SSHConfig \<Rightarrow> string option) \<Rightarrow> SSHConfig \<Rightarrow> Availability" where
  "probe_awaited network sshConfig =
     (case await (NodeSSH_connect network sshConfig) of
        Inr u \<Rightarrow> Reachable
      | Inl err \<Rightarrow> Unreachable)"

text \<open>The first loop (lines 13 to 19), over the documents of the collection.\<close>

definition indexHosts :: "string \<Rightarrow> Host list \<Rightarrow> (string \<rightharpoonup> Host)" where
  "indexHosts agentId results =
     fold (\<lambda>host hosts.
             hosts(host_id host \<mapsto> (if host_id host = agentId then host\<lparr>agent := Some True\<rparr> else host)))
       results Map.empty"

text \<open>
  \<^verbatim>\<open>fetchHosts\<close>, given the documents read from the collection, the agent id
  (\<^verbatim>\<open>process.env.AGENT\<close>) and the network (for each SSH configuration, whether
  connecting fails and with what error).
\<close>

definition fetchHosts ::
  "(SSHConfig \<Rightarrow> string option) \<Rightarrow> string \<Rightarrow> Host list \<Rightarrow> (string \<rightharpoonup> Host)" where
  "fetchHosts network agentId results =
     (let hosts = indexHosts agentId results
      in case hosts agentId of
           None \<Rightarrow> hosts
         | Some agentHost \<Rightarrow>
             fold (\<lambda>hostId hs.
                     case hs hostId of
                       None \<Rightarrow> hs
                     | Some h \<Rightarrow>
                         (case map_of (ssh agentHost) hostId of
                            None \<Rightarrow> hs
                          | Some sshConfig \<Rightarrow>
                              hs(hostId \<mapsto> h\<lparr>available := Some (probe network sshConfig)\<rparr>)))
               (map fst (ssh agentHost)) hosts)"

text \<open>A catalog in which every host is stored under its own id.\<close>

definition keyed :: "(string \<rightharpoonup> Host) \<Rightarrow> bool" where
  "keyed hosts = (\<forall>k h. hosts k = Some h \<longrightarrow> host_id h = k)"

section \<open>Remote operations and their effects\<close>

text \<open>
  Everything the executor does goes through a \<^verbatim>\<open>NodeSSH\<close> object or the local file
  system. Each operation is recorded in a trace together with its outcome. The number in
  an operation identifies the \<^verbatim>\<open>NodeSSH\<close> object (one per \<^verbatim>\<open>SSHExecutor\<close>).
\<close>

record Response =
  stdout :: string
  stderr :: string
  code :: "int option"

datatype Op =
    Connect nat "SSHConfig option"
  | Dispose nat
  | ExecCommand nat string string
  | Exec nat string "string list"
  | GetFile nat string string
  | PutFile nat string string
  | LocalRm string

datatype Outcome = Rejects string | Resolves Response

type_synonym Trace = "(Op \<times> Outcome) list"

text \<open>
  The world outside the program: how each operation ends, given everything that
  happened before; what \<^verbatim>\<open>Math.random().toString()\<close> and
  \<^verbatim>\<open>new Date().toISOString()\<close> return at that moment; \<^verbatim>\<open>path.resolve\<close> (which
  depends on the working directory) and \<^verbatim>\<open>colors.gray\<close> (which depends on the
  terminal).
\<close>

record World =
  respond :: "Trace \<Rightarrow> Op \<Rightarrow> Outcome"
  mathRandom :: "Trace \<Rightarrow> string"
  toISOString :: "Trace \<Rightarrow> string"
  resolve :: "string \<Rightarrow> string"
  gray :: "string \<Rightarrow> string"

text \<open>
  The state threaded through the executor and the coordinator: the trace, the number of
  \<^verbatim>\<open>NodeSSH\<close> objects created so far, the lines passed to the \<^verbatim>\<open>log\<close> callback
  and the \<^verbatim>\<open>run_log\<close> collection (the records that \<^verbatim>\<open>saveRun\<close> inserts, without
  their timestamps).
\<close>

record RunRecord =
  run_plan :: Plan
  run_lines :: "string list"
  run_error :: "string option"

record ExecState =
  trace :: Trace
  nextSession :: nat
  logLines :: "string list"
  run_log :: "RunRecord list"

text \<open>
  An \<^verbatim>\<open>async\<close> function body: it reads and changes the state and either returns a
  value (\<open>Inr\<close>) or throws (\<open>Inl\<close>, the thrown value as \<^verbatim>\<open>"" + err\<close> renders it).
\<close>

type_synonym 'a io = "ExecState \<Rightarrow> (string + 'a) \<times> ExecState"

definition returnIO :: "'a \<Rightarrow> 'a io" where
  "returnIO v = (\<lambda>s. (Inr v, s))"

definition throwIO :: "string \<Rightarrow> 'a io" where
  "throwIO err = (\<lambda>s. (Inl err, s))"

definition bindIO :: "'a io \<Rightarrow> ('a \<Rightarrow> 'b io) \<Rightarrow> 'b io" where
  "bindIO m f = (\<lambda>s. case m s of (Inl err, s') \<Rightarrow> (Inl err, s') | (Inr v, s') \<Rightarrow> f v s')"

definition thenIO :: "'a io \<Rightarrow> 'b io \<Rightarrow> 'b io" where
  "thenIO m n = bindIO m (\<lambda>v. n)"

definition catchIO :: "'a io \<Rightarrow> (string \<Rightarrow> 'a io) \<Rightarrow> 'a io" where
  "catchIO m handler =
     (\<lambda>s. case m s of (Inl err, s') \<Rightarrow> handler err s' | (Inr v, s') \<Rightarrow> (Inr v, s'))"

fun forEachIO :: "('a \<Rightarrow> unit io) \<Rightarrow> 'a list \<Rightarrow> unit io" where
  "forEachIO body [] = returnIO ()"
| "forEachIO body (x # xs) = thenIO (body x) (forEachIO body xs)"

definition perform :: "World \<Rightarrow> Op \<Rightarrow> Response io" where
  "perform w op =
     (\<lambda>s. let r = respond w (trace s) op;
               s' = s\<lparr>trace := trace s @ [(op, r)]\<rparr>
           in case r of Rejects err \<Rightarrow> (Inl err, s') | Resolves resp \<Rightarrow> (Inr resp, s'))"

definition performIO :: "World \<Rightarrow> Op \<Rightarrow> unit io" where
  "performIO w op = bindIO (perform w op) (\<lambda>resp. returnIO ())"

definition logIO :: "string \<Rightarrow> unit io" where
  "logIO line = (\<lambda>s. (Inr (), s\<lparr>logLines := logLines s @ [line]\<rparr>))"

text \<open>The sessions a trace leaves open: connected and not disposed of since.\<close>

fun sessionStep :: "nat list \<Rightarrow> Op \<times> Outcome \<Rightarrow> nat list" where
  "sessionStep open (Connect sid c, Resolves r) = open @ [sid]"
| "sessionStep open (Dispose sid, out) = filter (\<lambda>x. x \<noteq> sid) open"
| "sessionStep open ev = open"

definition openSessions :: "Trace \<Rightarrow> nat list" where
  "openSessions tr = foldl sessionStep [] tr"

section \<open>The SSH executor (executorHelpers.ts)\<close>

text \<open>
  \<^verbatim>\<open>String.prototype.includes\<close>, used on \<^verbatim>\<open>"" + err\<close>.
\<close>

fun startsWith :: "string \<Rightarrow> string \<Rightarrow> bool" where
  "startsWith s [] = True"
| "startsWith [] (c # cs) = False"
| "startsWith (x # xs) (c # cs) = (x = c \<and> startsWith xs cs)"

fun String_includes :: "string \<Rightarrow> string \<Rightarrow> bool" where
  "String_includes [] needle = (needle = [])"
| "String_includes (x # xs) needle = (startsWith (x # xs) needle \<or> String_includes xs needle)"

record SSHExecutor =
  config :: "SSHConfig option"
  session :: nat

text \<open>
  \<^verbatim>\<open>createSSHExecutor(config)\<close>: a new object with a \<^verbatim>\<open>NodeSSH\<close> of its own. The
  argument is \<open>None\<close> when the caller's lookup gave \<^verbatim>\<open>undefined\<close>.
\<close>

definition createSSHExecutor :: "SSHConfig option \<Rightarrow> SSHExecutor io" where
  "createSSHExecutor c =
     (\<lambda>s. (Inr \<lparr> config = c, session = nextSession s \<rparr>,
            s\<lparr>nextSession := Suc (nextSession s)\<rparr>))"

definition ready :: "World \<Rightarrow> SSHExecutor \<Rightarrow> unit io" where
  "ready w ex = performIO w (Connect (session ex) (config ex))"

text \<open>\<^verbatim>\<open>finish\<close>: \<^verbatim>\<open>dispose()\<close> is synchronous and does not throw.\<close>

definition finish :: "SSHExecutor \<Rightarrow> unit io" where
  "finish ex =
     (\<lambda>s. (Inr (),
            s\<lparr>trace := trace s
                 @ [(Dispose (session ex), Resolves \<lparr> stdout = [], stderr = [], code = None \<rparr>)]\<rparr>))"

text \<open>\<^verbatim>\<open>tmp()\<close> with its default extension.\<close>

definition tmp :: "World \<Rightarrow> string io" where
  "tmp w = (\<lambda>s. (Inr (''/tmp/backup'' @ drop 2 (mathRandom w (trace s)) @ ''.tar.gz''), s))"

definition isoNow :: "World \<Rightarrow> string io" where
  "isoNow w = (\<lambda>s. (Inr (toISOString w (trace s)), s))"

text \<open>
  \<^verbatim>\<open>if (plan.hooks?.pre) await this.ssh.execCommand(cmd, { cwd })\<close>, and the same for
  \<^verbatim>\<open>post\<close>: the response of \<^verbatim>\<open>execCommand\<close> (with its exit code) is dropped.
\<close>

definition runHook :: "World \<Rightarrow> SSHExecutor \<Rightarrow> Hook option \<Rightarrow> unit io" where
  "runHook w ex hook =
     (case hook of
        None \<Rightarrow> returnIO ()
      | Some h \<Rightarrow> performIO w (ExecCommand (session ex) (cmd h) (cwd h)))"

definition hookPre :: "Hooks option \<Rightarrow> Hook option" where
  "hookPre hks = (case hks of None \<Rightarrow> None | Some h \<Rightarrow> pre h)"

definition hookPost :: "Hooks option \<Rightarrow> Hook option" where
  "hookPost hks = (case hks of None \<Rightarrow> None | Some h \<Rightarrow> post h)"

text \<open>
  The \<^verbatim>\<open>switch (plan.strategy.type)\<close>. The two revisions of the method differ in
  one literal, the flags of the \<^verbatim>\<open>tar\<close> call of the \<^verbatim>\<open>mongodb\<close> case, which is
  the parameter \<open>mongoFlags\<close> (and in the \<^verbatim>\<open>onStdout\<close>/\<^verbatim>\<open>onStderr\<close> callbacks of
  the \<^verbatim>\<open>mongodump\<close> call, which only write to the console). \<^verbatim>\<open>exec\<close> rejects
  when the command could not be run or wrote to its standard error; the \<^verbatim>\<open>catch\<close>
  around \<^verbatim>\<open>mongodump\<close> rethrows only an error whose text contains \<^verbatim>\<open>Failed\<close>.
\<close>

definition buildArchive ::
  "string \<Rightarrow> World \<Rightarrow> SSHExecutor \<Rightarrow> string \<Rightarrow> BackupStrategy \<Rightarrow> unit io" where
  "buildArchive mongoFlags w ex pkgFn strat =
     (case strat of
        Files ps \<Rightarrow> performIO w (Exec (session ex) ''tar'' ([''czvfP'', pkgFn] @ ps))
      | MongoDB url \<Rightarrow>
          bindIO (isoNow w) (\<lambda>stamp.
            let fn = ''/tmp/mongodump_'' @ stamp in
            thenIO (catchIO (performIO w (Exec (session ex) ''mongodump'' [''-o'', fn, url]))
                      (\<lambda>err. if String_includes err ''Failed'' then throwIO err else returnIO ()))
           (thenIO (performIO w (Exec (session ex) ''tar'' [mongoFlags, pkgFn, fn]))
                   (performIO w (Exec (session ex) ''rm'' [''-r'', fn])))))"

definition executeWith ::
  "string \<Rightarrow> World \<Rightarrow> SSHExecutor \<Rightarrow> Hooks option \<Rightarrow> BackupStrategy \<Rightarrow> string io" where
  "executeWith mongoFlags w ex hks strat =
     bindIO (tmp w) (\<lambda>pkgFn.
       thenIO (runHook w ex (hookPre hks))
      (thenIO (buildArchive mongoFlags w ex pkgFn strat)
      (thenIO (runHook w ex (hookPost hks))
              (returnIO pkgFn))))"

text \<open>
  \<^verbatim>\<open>SSHExecutor.execute\<close> of the revision that also has \<^verbatim>\<open>upload\<close>,
  \<^verbatim>\<open>scpDownload\<close> and \<^verbatim>\<open>scpUpload\<close> (it follows \<^verbatim>\<open>run.ts\<close> in
  \<^verbatim>\<open>src/src/run.ts\<close>, lines 113 to 160).
\<close>

definition SSHExecutor_execute ::
  "World \<Rightarrow> SSHExecutor \<Rightarrow> Hooks option \<Rightarrow> BackupStrategy \<Rightarrow> string io" where
  "SSHExecutor_execute = executeWith ''cvfP''"

text \<open>
  \<^verbatim>\<open>SSHExecutor.execute\<close> of \<^verbatim>\<open>src/src/executorHelpers.ts\<close> (lines 56 to 95), the
  revision without the \<^verbatim>\<open>scp\<close> methods.
\<close>

definition SSHExecutor_execute_helpers ::
  "World \<Rightarrow> SSHExecutor \<Rightarrow> Hooks option \<Rightarrow> BackupStrategy \<Rightarrow> string io" where
  "SSHExecutor_execute_helpers = executeWith ''czvfP''"

definition SSHExecutor_move :: "World \<Rightarrow> SSHExecutor \<Rightarrow> string \<Rightarrow> string \<Rightarrow> unit io" where
  "SSHExecutor_move w ex src dest = performIO w (Exec (session ex) ''mv'' [src, dest])"

definition SSHExecutor_download :: "World \<Rightarrow> SSHExecutor \<Rightarrow> string \<Rightarrow> string \<Rightarrow> unit io" where
  "SSHExecutor_download w ex remoteFile localFile =
     performIO w (GetFile (session ex) localFile remoteFile)"

definition SSHExecutor_upload :: "World \<Rightarrow> SSHExecutor \<Rightarrow> string \<Rightarrow> string \<Rightarrow> unit io" where
  "SSHExecutor_upload w ex localFile remoteFile =
     performIO w (PutFile (session ex) localFile remoteFile)"

definition SSHExecutor_delete :: "World \<Rightarrow> SSHExecutor \<Rightarrow> string \<Rightarrow> unit io" where
  "SSHExecutor_delete w ex pkgFn = performIO w (Exec (session ex) ''rm'' [pkgFn])"

text \<open>
  The three \<^verbatim>\<open>assert\<close> calls of \<^verbatim>\<open>scpDownload\<close> and \<^verbatim>\<open>scpUpload\<close>. With
  \<^verbatim>\<open>remote\<close> undefined, reading \<^verbatim>\<open>remote.privateKeyPath\<close> throws a TypeError.
\<close>

definition assertRemote :: "SSHConfig option \<Rightarrow> SSHConfig io" where
  "assertRemote remote =
     (case remote of
        None \<Rightarrow> throwIO ''TypeError: Cannot read properties of undefined''
      | Some r \<Rightarrow>
          if privateKeyPath r = [] then throwIO ''AssertionError: missing private key path''
          else if username r = [] then throwIO ''AssertionError: missing username''
          else if ssh_host r = [] then throwIO ''AssertionError: missing host''
          else returnIO r)"

definition SSHExecutor_scpDownload ::
  "World \<Rightarrow> SSHExecutor \<Rightarrow> string \<Rightarrow> SSHConfig option \<Rightarrow> string \<Rightarrow> unit io" where
  "SSHExecutor_scpDownload w ex remoteFile remote executorLocalFile =
     bindIO (assertRemote remote) (\<lambda>r.
       performIO w (Exec (session ex) ''scp''
         [''-i'', privateKeyPath r, username r @ ''@'' @ ssh_host r @ '':'' @ remoteFile,
          executorLocalFile]))"

definition SSHExecutor_scpUpload ::
  "World \<Rightarrow> SSHExecutor \<Rightarrow> string \<Rightarrow> SSHConfig option \<Rightarrow> string \<Rightarrow> unit io" where
  "SSHExecutor_scpUpload w ex executorLocalFile remote remoteFile =
     bindIO (assertRemote remote) (\<lambda>r.
       performIO w (Exec (session ex) ''scp''
         [''-i'', privateKeyPath r, executorLocalFile,
          username r @ ''@'' @ ssh_host r @ '':'' @ remoteFile]))"

section \<open>Executing a plan (executor.ts) and the run coordinator (run.ts)\<close>

text \<open>
  \<^verbatim>\<open>hosts[a].ssh[b]\<close>: a TypeError when \<^verbatim>\<open>hosts[a]\<close> is undefined, otherwise the
  entry or \<^verbatim>\<open>undefined\<close>.
\<close>

definition sshOf :: "(string \<rightharpoonup> Host) \<Rightarrow> string \<Rightarrow> string \<Rightarrow> SSHConfig option io" where
  "sshOf hosts a b =
     (case hosts a of
        None \<Rightarrow> throwIO ''TypeError: Cannot read properties of undefined''
      | Some h \<Rightarrow> returnIO (map_of (ssh h) b))"

text \<open>\<^verbatim>\<open>plan.id.replace(/\//g, "-")\<close> and the name of the backup.\<close>

definition replaceSlashes :: "string \<Rightarrow> string" where
  "replaceSlashes s = map (\<lambda>c. if c = CHR ''/'' then CHR ''-'' else c) s"

definition backupNameOf :: "string \<Rightarrow> string \<Rightarrow> string" where
  "backupNameOf pid stamp = replaceSlashes pid @ ''_'' @ stamp @ ''.tar.gz''"

text \<open>The bodies of the three loops of \<^verbatim>\<open>execute\<close>.\<close>

definition uploadDirectly ::
  "World \<Rightarrow> (string \<rightharpoonup> Host) \<Rightarrow> SSHExecutor \<Rightarrow> Host \<Rightarrow> string \<Rightarrow> string \<Rightarrow> Destination \<Rightarrow> unit io" where
  "uploadDirectly w hosts executor planHost pkgFn backupName d =
     thenIO (logIO (''Uploading the backup to '' @ gray w (dest_host d)))
    (bindIO (sshOf hosts (host_id planHost) (dest_host d)) (\<lambda>remote.
       SSHExecutor_scpUpload w executor pkgFn remote (dest_path d @ backupName)))"

definition receiveOn ::
  "World \<Rightarrow> (string \<rightharpoonup> Host) \<Rightarrow> string \<Rightarrow> Host \<Rightarrow> string \<Rightarrow> string \<Rightarrow> Destination \<Rightarrow> unit io" where
  "receiveOn w hosts agentId planHost pkgFn backupName d =
     thenIO (logIO (''Downloading the backup to '' @ gray w (dest_host d)))
    (bindIO (sshOf hosts agentId (dest_host d)) (\<lambda>c.
     bindIO (createSSHExecutor c) (\<lambda>downloadExecutor.
     thenIO (ready w downloadExecutor)
    (bindIO (sshOf hosts (dest_host d) (host_id planHost)) (\<lambda>remote.
     thenIO (SSHExecutor_scpDownload w downloadExecutor pkgFn remote (dest_path d @ backupName))
            (finish downloadExecutor))))))"

definition redirectTo ::
  "World \<Rightarrow> (string \<rightharpoonup> Host) \<Rightarrow> string \<Rightarrow> string \<Rightarrow> string \<Rightarrow> Destination \<Rightarrow> unit io" where
  "redirectTo w hosts agentId localFile backupName d =
     thenIO (logIO (''Uploading the local backup to '' @ gray w (dest_host d)))
    (bindIO (sshOf hosts agentId (dest_host d)) (\<lambda>c.
     bindIO (createSSHExecutor c) (\<lambda>uploadExecutor.
     thenIO (ready w uploadExecutor)
    (thenIO (SSHExecutor_upload w uploadExecutor localFile (dest_path d @ backupName))
            (finish uploadExecutor)))))"

text \<open>The \<^verbatim>\<open>if (downloadLocally) { ... }\<close> block (lines 70 to 97).\<close>

definition downloadBlock ::
  "World \<Rightarrow> (string \<rightharpoonup> Host) \<Rightarrow> string \<Rightarrow> SSHExecutor \<Rightarrow> string \<Rightarrow> string \<Rightarrow> CloneStrategy \<Rightarrow> unit io" where
  "downloadBlock w hosts agentId executor pkgFn backupName clone =
     (if download_truthy (downloadLocally clone)
      then
        (let localFile = resolve w (''./backups/'' @ backupName) in
         thenIO (logIO ''Downloading the backup to the agent'')
        (thenIO (SSHExecutor_download w executor pkgFn localFile)
        (thenIO (forEachIO (redirectTo w hosts agentId localFile backupName) (redirectCloneTo clone))
           (case downloadLocally clone of
              DownloadPath p \<Rightarrow> returnIO ()
            | DownloadFlag b \<Rightarrow>
                thenIO (logIO ''Removing local copy of backup'')
                       (performIO w (LocalRm localFile))))))
      else returnIO ())"

text \<open>The \<^verbatim>\<open>if (retainOnHost) { ... } else { ... }\<close> (lines 99 to 105).\<close>

definition retainBlock :: "World \<Rightarrow> SSHExecutor \<Rightarrow> string \<Rightarrow> string \<Rightarrow> CloneStrategy \<Rightarrow> unit io" where
  "retainBlock w executor pkgFn backupName clone =
     (case retainOnHost clone of
        RetainPath p \<Rightarrow>
          thenIO (logIO ''Retaining backup on the remote host'')
                 (SSHExecutor_move w executor pkgFn (p @ backupName))
      | RetainFalse \<Rightarrow>
          thenIO (logIO ''Removing backup from remote host'')
                 (SSHExecutor_delete w executor pkgFn))"

text \<open>
  \<^verbatim>\<open>execute(hosts, agentId, plan, log)\<close> of \<^verbatim>\<open>src/src/executor.ts\<close>.
\<close>

definition execute :: "World \<Rightarrow> (string \<rightharpoonup> Host) \<Rightarrow> string \<Rightarrow> Plan \<Rightarrow> unit io" where
  "execute w hosts agentId plan =
     (case plan of
        PlanSkipped pid \<Rightarrow>
          logIO (''Skipping plan '' @ gray w pid @ '' as it is '' @ gray w ''skipped'')
      | PlanFailed pid \<Rightarrow>
          logIO (''Skipping plan '' @ gray w pid @ '' as it is '' @ gray w ''failed'')
      | PlanSshAgent pid planHost hks strat clone \<Rightarrow>
          thenIO (logIO (''Preparing to run plan for '' @ gray w pid))
         (bindIO (sshOf hosts agentId (host_id planHost)) (\<lambda>c.
          bindIO (createSSHExecutor c) (\<lambda>executor.
          thenIO (ready w executor)
         (thenIO (logIO ''Executor ready, running the strategy'')
         (bindIO (SSHExecutor_execute w executor hks strat) (\<lambda>pkgFn.
          bindIO (isoNow w) (\<lambda>stamp.
            let backupName = backupNameOf pid stamp in
            thenIO (forEachIO (uploadDirectly w hosts executor planHost pkgFn backupName)
                      (directlyCloneTo clone))
           (thenIO (forEachIO (receiveOn w hosts agentId planHost pkgFn backupName)
                      (receiveCloneFrom clone))
           (thenIO (downloadBlock w hosts agentId executor pkgFn backupName clone)
           (thenIO (retainBlock w executor pkgFn backupName clone)
           (thenIO (finish executor)
                   (logIO ''Plan complete'')))))))))))))"

text \<open>
  \<^verbatim>\<open>execute(agent, plan, log)\<close> of \<^verbatim>\<open>src/unnamed/part_002\<close>, the revision of
  \<^verbatim>\<open>executor.ts\<close> that takes the agent's host instead of the catalog, goes with
  \<^verbatim>\<open>src/src/executorHelpers.ts\<close>, and has the uploads still to do: the loop over
  \<^verbatim>\<open>directlyCloneTo\<close> is empty, the loop over \<^verbatim>\<open>redirectCloneTo\<close> only logs,
  and \<^verbatim>\<open>receiveCloneFrom\<close> is not read. It downloads to
  \<^verbatim>\<open>resolve(localFile)\<close> and removes \<^verbatim>\<open>localFile\<close>, the relative path.
\<close>

definition sshOfHost :: "Host option \<Rightarrow> string \<Rightarrow> SSHConfig option io" where
  "sshOfHost agentHost b =
     (case agentHost of
        None \<Rightarrow> throwIO ''TypeError: Cannot read properties of undefined''
      | Some h \<Rightarrow> returnIO (map_of (ssh h) b))"

definition downloadBlock_agent ::
  "World \<Rightarrow> SSHExecutor \<Rightarrow> string \<Rightarrow> string \<Rightarrow> CloneStrategy \<Rightarrow> unit io" where
  "downloadBlock_agent w executor pkgFn backupName clone =
     (if download_truthy (downloadLocally clone)
      then
        (let localFile = ''./backups/'' @ backupName in
         thenIO (logIO ''Downloading the backup to the agent'')
        (thenIO (SSHExecutor_download w executor pkgFn (resolve w localFile))
        (thenIO (forEachIO (\<lambda>d. logIO (''Uploading the backup to '' @ gray w (dest_host d)))
                   (redirectCloneTo clone))
           (case downloadLocally clone of
              DownloadPath p \<Rightarrow> returnIO ()
            | DownloadFlag b \<Rightarrow>
                thenIO (logIO ''Removing local copy of backup'')
                       (performIO w (LocalRm localFile))))))
      else returnIO ())"

definition execute_agent :: "World \<Rightarrow> Host option \<Rightarrow> Plan \<Rightarrow> unit io" where
  "execute_agent w agentHost plan =
     (case plan of
        PlanSkipped pid \<Rightarrow>
          logIO (''Skipping plan '' @ gray w pid @ '' as it is '' @ gray w ''skipped'')
      | PlanFailed pid \<Rightarrow>
          logIO (''Skipping plan '' @ gray w pid @ '' as it is '' @ gray w ''failed'')
      | PlanSshAgent pid planHost hks strat clone \<Rightarrow>
          thenIO (logIO (''Preparing to run plan for '' @ gray w pid))
         (bindIO (sshOfHost agentHost (host_id planHost)) (\<lambda>c.
          bindIO (createSSHExecutor c) (\<lambda>executor.
          thenIO (ready w executor)
         (thenIO (logIO ''Executor ready, running the strategy'')
         (bindIO (SSHExecutor_execute_helpers w executor hks strat) (\<lambda>pkgFn.
          bindIO (isoNow w) (\<lambda>stamp.
            let backupName = backupNameOf pid stamp in
            thenIO (forEachIO (\<lambda>d. returnIO ()) (directlyCloneTo clone))
           (thenIO (downloadBlock_agent w executor pkgFn backupName clone)
           (thenIO (retainBlock w executor pkgFn backupName clone)
           (thenIO (finish executor)
                   (logIO ''Plan complete''))))))))))))"

text \<open>
  The body of the coordinator's loop (\<^verbatim>\<open>run.ts\<close>, lines 30 to 48): a fresh
  \<^verbatim>\<open>log\<close> array, \<^verbatim>\<open>execute\<close> inside \<^verbatim>\<open>try\<close>/\<^verbatim>\<open>catch\<close>, then
  \<^verbatim>\<open>saveRun(plan, log, error)\<close>. The call of \<^verbatim>\<open>execute\<close> is the parameter
  \<open>exec\<close>.
\<close>

definition coordinate :: "(Plan \<Rightarrow> unit io) \<Rightarrow> Plan \<Rightarrow> ExecState \<Rightarrow> ExecState" where
  "coordinate exec plan s =
     (case exec plan (s\<lparr>logLines := []\<rparr>) of
        (result, s') \<Rightarrow>
          s'\<lparr>run_log := run_log s'
               @ [\<lparr> run_plan = plan, run_lines = logLines s',
                    run_error = (case result of Inl err \<Rightarrow> Some err | Inr u \<Rightarrow> None) \<rparr>]\<rparr>)"

text \<open>
  The loop body as \<^verbatim>\<open>run.ts\<close> has it: \<^verbatim>\<open>execute(HOSTS[AGENT], plan, log)\<close>, the
  call that \<^verbatim>\<open>execute(agent, plan, log)\<close> of \<^verbatim>\<open>src/unnamed/part_002\<close> takes.
  (\<^verbatim>\<open>execute(hosts, agentId, plan, log)\<close> of \<^verbatim>\<open>src/src/executor.ts\<close> would get the
  callback in the place of the plan and no callback, and throw a TypeError at its first
  \<^verbatim>\<open>log(...)\<close>, before any session is opened; the properties of that revision are
  therefore stated on \<open>execute\<close> itself.)
\<close>

definition runPlan_agent :: "World \<Rightarrow> (string \<rightharpoonup> Host) \<Rightarrow> string \<Rightarrow> Plan \<Rightarrow> ExecState \<Rightarrow> ExecState" where
  "runPlan_agent w hosts agentId = coordinate (execute_agent w (hosts agentId))"

definition initialState :: ExecState where
  "initialState = \<lparr> trace = [], nextSession = 0, logLines = [], run_log = [] \<rparr>"

section \<open>Concrete catalogs and worlds\<close>

text \<open>
  The catalogs of the scenarios: an agent \<open>A\<close> that holds SSH parameters for the source
  host \<open>B\<close> and for \<open>C\<close>; the reachability verdict of \<open>B\<close> and the \<open>ssh\<close> maps of
  \<open>B\<close> and \<open>C\<close> vary.
\<close>

definition sshTo :: "string \<Rightarrow> SSHConfig" where
  "sshTo h = \<lparr> username = ''backup'', ssh_host = h, privateKeyPath = ''/keys/id'',
               passphrase = None \<rparr>"

definition scenarioHosts ::
  "Availability option \<Rightarrow> (string \<times> SSHConfig) list \<Rightarrow> (string \<times> SSHConfig) list
     \<Rightarrow> (string \<rightharpoonup> Host)" where
  "scenarioHosts availB sshB sshC =
     [''A'' \<mapsto> \<lparr> host_id = ''A'', agent = Some True, available = None,
                 ssh = [(''B'', sshTo ''b.example''), (''C'', sshTo ''c.example'')] \<rparr>,
      ''B'' \<mapsto> \<lparr> host_id = ''B'', agent = None, available = availB, ssh = sshB \<rparr>,
      ''C'' \<mapsto> \<lparr> host_id = ''C'', agent = None, available = Some Reachable, ssh = sshC \<rparr>]"

definition scenarioBlueprint :: "Interval \<Rightarrow> Destination list \<Rightarrow> Blueprint" where
  "scenarioBlueprint iv dests =
     \<lparr> bp_id = ''etc'', interval = iv,
       mode = SshAgentMode ''B'' None (Files [''/etc'']) dests \<rparr>"

text \<open>
  A catalog with one destination of each kind: \<open>B\<close> can reach \<open>D\<close>, \<open>E\<close> can reach
  \<open>B\<close>, and \<open>C\<close> is connected to neither.
\<close>

definition fanoutHosts :: "string \<rightharpoonup> Host" where
  "fanoutHosts =
     [''A'' \<mapsto> \<lparr> host_id = ''A'', agent = Some True, available = None,
                 ssh = [(''B'', sshTo ''b.example''), (''C'', sshTo ''c.example''),
                        (''D'', sshTo ''d.example''), (''E'', sshTo ''e.example'')] \<rparr>,
      ''B'' \<mapsto> \<lparr> host_id = ''B'', agent = None, available = Some Reachable,
                 ssh = [(''D'', sshTo ''d.example'')] \<rparr>,
      ''C'' \<mapsto> \<lparr> host_id = ''C'', agent = None, available = Some Reachable, ssh = [] \<rparr>,
      ''D'' \<mapsto> \<lparr> host_id = ''D'', agent = None, available = Some Reachable, ssh = [] \<rparr>,
      ''E'' \<mapsto> \<lparr> host_id = ''E'', agent = None, available = Some Reachable,
                 ssh = [(''B'', sshTo ''b.example'')] \<rparr>]"

definition fanoutDestinations :: "Destination list" where
  "fanoutDestinations =
     [HostDestination ''B'' ''/keep/'', HostDestination ''A'' ''/local/'',
      HostDestination ''C'' ''/c/'', HostDestination ''D'' ''/d/'',
      HostDestination ''E'' ''/e/'', HostDestination ''F'' ''/f/'']"

definition fanoutClone :: CloneStrategy where
  "fanoutClone =
     \<lparr> retainOnHost = RetainPath ''/keep/'', downloadLocally = DownloadPath ''/local/'',
       directlyCloneTo = [HostDestination ''D'' ''/d/''],
       redirectCloneTo = [HostDestination ''C'' ''/c/''],
       receiveCloneFrom = [HostDestination ''E'' ''/e/''] \<rparr>"

text \<open>
  The plan the planner makes for the catalog above (see \<open>fanout_plan\<close>), and plans with
  the other two values of \<^verbatim>\<open>downloadLocally\<close>.
\<close>

definition fanoutPlan :: Plan where
  "fanoutPlan =
     PlanSshAgent ''etc''
       \<lparr> host_id = ''B'', agent = None, available = Some Reachable,
         ssh = [(''D'', sshTo ''d.example'')] \<rparr>
       None (Files [''/etc'']) fanoutClone"

definition stagedClone :: CloneStrategy where
  "stagedClone =
     \<lparr> retainOnHost = RetainFalse, downloadLocally = DownloadFlag True,
       directlyCloneTo = [], redirectCloneTo = [HostDestination ''C'' ''/c/''],
       receiveCloneFrom = [] \<rparr>"

definition stagedPlan :: Plan where
  "stagedPlan =
     PlanSshAgent ''etc''
       \<lparr> host_id = ''B'', agent = None, available = Some Reachable, ssh = [] \<rparr>
       None (Files [''/etc'']) stagedClone"

definition catalogDocuments :: "Host list" where
  "catalogDocuments =
     [\<lparr> host_id = ''A'', agent = None, available = None,
        ssh = [(''B'', sshTo ''b.example'')] \<rparr>,
      \<lparr> host_id = ''B'', agent = None, available = None, ssh = [] \<rparr>]"

text \<open>
  Worlds in which the outcome of an operation depends on the operation alone; the random
  number, the clock and the working directory are fixed.
\<close>

definition okResponse :: Response where
  "okResponse = \<lparr> stdout = [], stderr = [], code = Some 0 \<rparr>"

definition worldWhere :: "(Op \<Rightarrow> Outcome) \<Rightarrow> World" where
  "worldWhere f =
     \<lparr> respond = (\<lambda>tr. f), mathRandom = (\<lambda>tr. ''0.5772''),
       toISOString = (\<lambda>tr. ''2024-01-31T00:00:00.000Z''),
       resolve = (\<lambda>p. ''/srv/agent/'' @ drop 2 p), gray = (\<lambda>x. x) \<rparr>"

text \<open>Every operation succeeds.\<close>

definition calmWorld :: World where
  "calmWorld = worldWhere (\<lambda>op. Resolves okResponse)"

text \<open>\<^verbatim>\<open>tar\<close> writes to its standard error, so \<^verbatim>\<open>exec\<close> rejects.\<close>

definition tarFails :: World where
  "tarFails =
     worldWhere (\<lambda>op. case op of
         Exec sid c args \<Rightarrow>
           if c = ''tar'' then Rejects ''Error: tar: /etc: Cannot open'' else Resolves okResponse
       | other \<Rightarrow> Resolves okResponse)"

text \<open>
  Every command run through \<^verbatim>\<open>execCommand\<close> exits with status 1:
  \<^verbatim>\<open>execCommand\<close> resolves with \<^verbatim>\<open>{ stdout, stderr, code, signal }\<close> whatever the
  exit status is.
\<close>

definition hooksExit1 :: World where
  "hooksExit1 =
     worldWhere (\<lambda>op. case op of
         ExecCommand sid c d \<Rightarrow> Resolves \<lparr> stdout = [], stderr = [], code = Some 1 \<rparr>
       | other \<Rightarrow> Resolves okResponse)"

text \<open>The connection cannot be opened.\<close>

definition hooksRejected :: World where
  "hooksRejected =
     worldWhere (\<lambda>op. case op of
         ExecCommand sid c d \<Rightarrow> Rejects ''Error: Not connected to server''
       | other \<Rightarrow> Resolves okResponse)"

definition migrateHooks :: "Hooks option" where
  "migrateHooks = Some \<lparr> pre = Some \<lparr> cwd = ''/srv/app'', cmd = ''./freeze.sh'' \<rparr>, post = None \<rparr>"

definition sourceExecutor :: SSHExecutor where
  "sourceExecutor = \<lparr> config = Some (sshTo ''b.example''), session = 0 \<rparr>"

section \<open>Predicates used in the proofs\<close>

text \<open>
  A triple for an \<^verbatim>\<open>async\<close> body: from a state that satisfies \<open>P\<close>, a normal return
  leaves a state that satisfies \<open>Q\<close> and a throw one that satisfies \<open>E\<close>.
\<close>

definition triple ::
  "(ExecState \<Rightarrow> bool) \<Rightarrow> 'a io \<Rightarrow> ('a \<Rightarrow> ExecState \<Rightarrow> bool) \<Rightarrow> (ExecState \<Rightarrow> bool) \<Rightarrow> bool" where
  "triple P m Q E =
     (\<forall>s. P s \<longrightarrow> (case m s of (Inr v, s') \<Rightarrow> Q v s' | (Inl err, s') \<Rightarrow> E s'))"

text \<open>The open sessions are \<open>S\<close>, and their numbers have been handed out.\<close>

definition holding :: "nat list \<Rightarrow> ExecState \<Rightarrow> bool" where
  "holding S s = (openSessions (trace s) = S \<and> (\<forall>x \<in> set S. x < nextSession s))"

text \<open>The numbers of the open sessions have all been handed out.\<close>

definition numbered :: "ExecState \<Rightarrow> bool" where
  "numbered s = (\<forall>x \<in> set (openSessions (trace s)). x < nextSession s)"

text \<open>
  The operations that change the agent's file system: a download writes a local file
  and \<^verbatim>\<open>rm\<close> removes one. \<open>localWrites\<close> lists them in the order of the trace.
\<close>

fun localWrite :: "Op \<Rightarrow> bool" where
  "localWrite (GetFile sid localFile remoteFile) = True"
| "localWrite (LocalRm f) = True"
| "localWrite other = False"

definition localWrites :: "Trace \<Rightarrow> Op list" where
  "localWrites tr = filter localWrite (map fst tr)"

definition wrote :: "Op list \<Rightarrow> ExecState \<Rightarrow> bool" where
  "wrote X s = (localWrites (trace s) = X)"

text \<open>
  What the \<^verbatim>\<open>if (downloadLocally)\<close> block is to write on the agent: nothing when
  \<^verbatim>\<open>downloadLocally\<close> is \<^verbatim>\<open>false\<close>; the archive, downloaded over the session
  \<open>sid\<close> to \<^verbatim>\<open>./backups/\<close> under the name of the backup, when it is an object; the
  same download and then the removal of that file when it is \<^verbatim>\<open>true\<close>.
\<close>

definition downloadWrites :: "World \<Rightarrow> nat \<Rightarrow> string \<Rightarrow> string \<Rightarrow> Download \<Rightarrow> Op list" where
  "downloadWrites w sid pkgFn backupName dl =
     (case dl of
        DownloadPath p \<Rightarrow> [GetFile sid (resolve w (''./backups/'' @ backupName)) pkgFn]
      | DownloadFlag b \<Rightarrow>
          if b then [GetFile sid (resolve w (''./backups/'' @ backupName)) pkgFn,
                     LocalRm (resolve w (''./backups/'' @ backupName))]
          else [])"

text \<open>The trace extends \<open>T\<close> by operations that all satisfy \<open>\<phi>\<close>.\<close>

definition grows :: "(Op \<Rightarrow> bool) \<Rightarrow> Trace \<Rightarrow> ExecState \<Rightarrow> bool" where
  "grows \<phi> T s = (\<exists>new. trace s = T @ new \<and> (\<forall>e \<in> set new. \<phi> (fst e)))"

fun sessionOp :: "Op \<Rightarrow> bool" where
  "sessionOp (Connect sid c) = True"
| "sessionOp (Dispose sid) = True"
| "sessionOp other = False"

fun notLocalRm :: "Op \<Rightarrow> bool" where
  "notLocalRm (LocalRm f) = False"
| "notLocalRm other = True"

text \<open>A \<^verbatim>\<open>tar\<close> call whose first argument, the flags, contains \<open>P\<close>; any other operation.\<close>

fun tarKeepsPaths :: "Op \<Rightarrow> bool" where
  "tarKeepsPaths (Exec sid c args) =
     (if c = ''tar'' then (case args of [] \<Rightarrow> False | flags # rest \<Rightarrow> CHR ''P'' \<in> set flags)
      else True)"
| "tarKeepsPaths other = True"

text \<open>
  The operations of a successful \<^verbatim>\<open>SSHExecutor.execute\<close>, as the specification lists
  them: the hooks around the archive build.
\<close>

text \<open>What \<^verbatim>\<open>SSHExecutor.execute\<close> does after the pre-hook.\<close>

definition afterPreHook ::
  "string \<Rightarrow> World \<Rightarrow> SSHExecutor \<Rightarrow> Hooks option \<Rightarrow> BackupStrategy \<Rightarrow> string \<Rightarrow> string io" where
  "afterPreHook mongoFlags w ex hks strat pkgFn =
     thenIO (buildArchive mongoFlags w ex pkgFn strat)
    (thenIO (runHook w ex (hookPost hks))
            (returnIO pkgFn))"

definition hookOps :: "SSHExecutor \<Rightarrow> Hook option \<Rightarrow> Op list" where
  "hookOps ex hook =
     (case hook of None \<Rightarrow> [] | Some h \<Rightarrow> [ExecCommand (session ex) (cmd h) (cwd h)])"

definition archiveOps :: "string \<Rightarrow> SSHExecutor \<Rightarrow> string \<Rightarrow> string \<Rightarrow> BackupStrategy \<Rightarrow> Op list" where
  "archiveOps mongoFlags ex pkgFn fn strat =
     (case strat of
        Files ps \<Rightarrow> [Exec (session ex) ''tar'' ([''czvfP'', pkgFn] @ ps)]
      | MongoDB url \<Rightarrow>
          [Exec (session ex) ''mongodump'' [''-o'', fn, url],
           Exec (session ex) ''tar'' [mongoFlags, pkgFn, fn],
           Exec (session ex) ''rm'' [''-r'', fn]])"

section \<open>Properties of the Date operations\<close>

text \<open>
  \<open>YearFromTime\<close> is what the ECMAScript specification defines: the largest year that
  starts on or before the day of \<open>t\<close>.
\<close>

lemma div_bounds:
  assumes "0 < (n::int)"
  shows "n * (a div n) \<le> a \<and> a < n * (a div n) + n"
proof -
  have "n * (a div n) + a mod n = a" by simp
  moreover have "0 \<le> a mod n" "a mod n < n" using assms by simp_all
  ultimately show ?thesis by linarith
qed

lemma DayFromYear_bounds:
  "146097 * (y - 1970) - 607 < 400 * DayFromYear y
   \<and> 400 * DayFromYear y < 146097 * (y - 1970) + 593"
proof -
  define a b c where "a = (y - 1969) div 4" and "b = (y - 1901) div 100"
    and "c = (y - 1601) div 400"
  have "4 * a \<le> y - 1969" "y - 1969 < 4 * a + 4"
    using div_bounds [of 4 "y - 1969"] by (simp_all add: a_def)
  moreover have "100 * b \<le> y - 1901" "y - 1901 < 100 * b + 100"
    using div_bounds [of 100 "y - 1901"] by (simp_all add: b_def)
  moreover have "400 * c \<le> y - 1601" "y - 1601 < 400 * c + 400"
    using div_bounds [of 400 "y - 1601"] by (simp_all add: c_def)
  moreover have "DayFromYear y = 365 * (y - 1970) + a - b + c"
    by (simp add: DayFromYear_def a_def b_def c_def)
  ultimately show ?thesis by (simp add: algebra_simps)
qed

lemma YearFromDay_spec:
  "DayFromYear (YearFromDay d) \<le> d \<and> d < DayFromYear (YearFromDay d + 1)"
proof -
  define q where "q = (400 * d) div 146097"
  define y0 where "y0 = 1970 + q"
  have e: "146097 * q \<le> 400 * d" "400 * d < 146097 * q + 146097"
    using div_bounds [of 146097 "400 * d"] by (simp_all add: q_def)
  have k: "y0 - 1 - 1970 = q - 1" "y0 + 2 - 1970 = q + 2" by (simp_all add: y0_def)
  have lo: "DayFromYear (y0 - 1) \<le> d"
    using DayFromYear_bounds [of "y0 - 1"] e unfolding k by (simp add: algebra_simps)
  have hi: "d < DayFromYear (y0 + 2)"
    using DayFromYear_bounds [of "y0 + 2"] e unfolding k by (simp add: algebra_simps)
  have yd: "YearFromDay d =
      (if d < DayFromYear y0 then y0 - 1 else if DayFromYear (y0 + 1) \<le> d then y0 + 1 else y0)"
    by (simp add: YearFromDay_def y0_def q_def Let_def)
  have s: "y0 - 1 + 1 = y0" "y0 + 1 + 1 = y0 + 2" by simp_all
  show ?thesis
  proof (cases "d < DayFromYear y0")
    case True
    with yd lo s show ?thesis by simp
  next
    case False
    show ?thesis
    proof (cases "DayFromYear (y0 + 1) \<le> d")
      case True
      with yd False hi s show ?thesis by (simp add: add.commute)
    next
      case f: False
      with yd False show ?thesis by simp
    qed
  qed
qed

lemma DayFromYear_mono: "y \<le> z \<Longrightarrow> DayFromYear y \<le> DayFromYear z"
proof -
  have st: "DayFromYear y \<le> DayFromYear (y + 1)" for y
  proof -
    have "(y - 1969) div 4 \<le> (y + 1 - 1969) div 4" by (rule zdiv_mono1) simp_all
    moreover have "(y - 1601) div 400 \<le> (y + 1 - 1601) div 400" by (rule zdiv_mono1) simp_all
    moreover have "(y + 1 - 1901) div 100 \<le> (y - 1901) div 100 + 1"
    proof -
      have "(y + 1 - 1901) div 100 \<le> (y - 1901 + 100) div 100" by (rule zdiv_mono1) simp_all
      also have "\<dots> = (y - 1901) div 100 + 1" by simp
      finally show ?thesis .
    qed
    ultimately show ?thesis unfolding DayFromYear_def by (simp add: algebra_simps)
  qed
  assume "y \<le> z"
  then obtain n where "z = y + int n" by (metis zle_iff_zadd)
  moreover have "DayFromYear y \<le> DayFromYear (y + int n)"
  proof (induction n)
    case 0
    then show ?case by simp
  next
    case (Suc n)
    have "y + int (Suc n) = y + int n + 1" by simp
    with st [of "y + int n"] Suc show ?case by (simp only:)
  qed
  ultimately show ?thesis by simp
qed

lemma YearFromTime_largest:
  "DayFromYear (YearFromTime t) \<le> Day t
   \<and> (\<forall>y. DayFromYear y \<le> Day t \<longrightarrow> y \<le> YearFromTime t)"
proof -
  have "y \<le> YearFromDay d" if "DayFromYear y \<le> d" for y d
  proof (rule ccontr)
    assume "\<not> y \<le> YearFromDay d"
    then have "YearFromDay d + 1 \<le> y" by simp
    from DayFromYear_mono [OF this] that YearFromDay_spec [of d] show False by linarith
  qed
  with YearFromDay_spec [of "Day t"] show ?thesis by (simp add: YearFromTime_def)
qed

text \<open>
  A year is followed by the next after 365 or 366 days, so \<open>YearFromTime\<close> is the one
  year whose days include the day of \<open>t\<close>, and the day within the year is in range.
\<close>

lemma div_succ:
  assumes "0 < (n::int)"
  shows "(a + 1) div n = a div n + (if (a + 1) mod n = 0 then 1 else 0)"
proof -
  define q r where "q = a div n" and "r = a mod n"
  have a: "a = n * q + r" by (simp add: q_def r_def)
  have r: "0 \<le> r" "r < n" using assms by (simp_all add: r_def)
  show ?thesis
  proof (cases "r = n - 1")
    case True
    with a have e: "a + 1 = n * (q + 1)" by (simp add: algebra_simps)
    have "(a + 1) div n = q + 1" unfolding e using assms by simp
    moreover have "(a + 1) mod n = 0" unfolding e by simp
    ultimately show ?thesis by (simp add: q_def)
  next
    case False
    with r have r1: "0 \<le> r + 1" "r + 1 < n" by simp_all
    from a have e: "a + 1 = n * q + (r + 1)" by simp
    have d: "(a + 1) div n = q" unfolding e using r1 assms
      by (simp add: div_pos_pos_trivial)
    have "(a + 1) mod n = r + 1" unfolding e using r1 assms
      by (simp add: mod_pos_pos_trivial)
    with r have "(a + 1) mod n \<noteq> 0" by simp
    with d show ?thesis by (simp add: q_def)
  qed
qed

lemma mod_shift:
  "(y - 1968) mod 4 = y mod 4" "(y - 1900) mod 100 = y mod 100" "(y - 1600) mod 400 = y mod 400"
  for y :: int
proof -
  have "y - 1968 = y + 4 * (- 492)" "y - 1900 = y + 100 * (- 19)" "y - 1600 = y + 400 * (- 4)"
    by simp_all
  then show "(y - 1968) mod 4 = y mod 4" "(y - 1900) mod 100 = y mod 100"
    "(y - 1600) mod 400 = y mod 400"
    by (simp_all only: mod_mult_self2)
qed

lemma mod_400_100:
  assumes "y mod 400 = (0::int)"
  shows "y mod 100 = 0" "y mod 4 = 0"
proof -
  from assms have d: "400 dvd y" by (simp add: mod_eq_0_iff_dvd)
  have "(100::int) dvd 400" "(4::int) dvd 400" by simp_all
  with d have "100 dvd y" "4 dvd y" using dvd_trans by blast+
  then show "y mod 100 = 0" "y mod 4 = 0" by (simp_all add: mod_eq_0_iff_dvd)
qed

lemma mod_100_4:
  assumes "y mod 100 = (0::int)"
  shows "y mod 4 = 0"
proof -
  from assms have d: "100 dvd y" by (simp add: mod_eq_0_iff_dvd)
  have "(4::int) dvd 100" by simp
  with d have "4 dvd y" using dvd_trans by blast
  then show ?thesis by (simp add: mod_eq_0_iff_dvd)
qed

lemma DayFromYear_step: "DayFromYear (y + 1) = DayFromYear y + DaysInYear y"
proof -
  have a: "(y + 1 - 1969) div 4 = (y - 1969) div 4 + (if y mod 4 = 0 then 1 else 0)"
    using div_succ [of 4 "y - 1969"] mod_shift(1) [of y] by (simp add: algebra_simps)
  have b: "(y + 1 - 1901) div 100 = (y - 1901) div 100 + (if y mod 100 = 0 then 1 else 0)"
    using div_succ [of 100 "y - 1901"] mod_shift(2) [of y] by (simp add: algebra_simps)
  have c: "(y + 1 - 1601) div 400 = (y - 1601) div 400 + (if y mod 400 = 0 then 1 else 0)"
    using div_succ [of 400 "y - 1601"] mod_shift(3) [of y] by (simp add: algebra_simps)
  show ?thesis
    unfolding DayFromYear_def DaysInYear_def a b c
    using mod_400_100 [of y] mod_100_4 [of y] by (simp add: algebra_simps)
qed

lemma DaysInYear_cases: "DaysInYear y = 365 \<or> DaysInYear y = 366"
  by (simp add: DaysInYear_def)

lemma YearFromDay_unique:
  assumes "DayFromYear y \<le> d" and "d < DayFromYear (y + 1)"
  shows "YearFromDay d = y"
proof (rule antisym)
  show "YearFromDay d \<le> y"
  proof (rule ccontr)
    assume "\<not> YearFromDay d \<le> y"
    then have "y + 1 \<le> YearFromDay d" by simp
    from DayFromYear_mono [OF this] YearFromDay_spec [of d] assms(2) show False by linarith
  qed
  show "y \<le> YearFromDay d"
  proof (rule ccontr)
    assume "\<not> y \<le> YearFromDay d"
    then have "YearFromDay d + 1 \<le> y" by simp
    from DayFromYear_mono [OF this] YearFromDay_spec [of d] assms(1) show False by linarith
  qed
qed


text \<open>
  The month and the day of the month are in range: the three tables of the model (the
  month of a day within the year, the days before a month, the length of a month) agree.
\<close>

lemma MonthFromTime_range: "0 \<le> MonthFromTime t \<and> MonthFromTime t < 12"
  by (simp add: MonthFromTime_def Let_def)


text \<open>From a year, a month and a day of that month to the day number and back.\<close>

lemma month_of_day_within_year:
  assumes m: "0 \<le> m" "m < 12" and l: "leap = 0 \<or> leap = 1"
    and lo: "DaysBeforeMonth leap m \<le> w"
    and hi: "w < DaysBeforeMonth leap m
                 + (if m = 1 then 28 + leap else if m = 3 \<or> m = 5 \<or> m = 8 \<or> m = 10 then 30 else 31)"
  shows "(if w < 31 then 0
         else if w < 59 + leap then 1
         else if w < 90 + leap then 2
         else if w < 120 + leap then 3
         else if w < 151 + leap then 4
         else if w < 181 + leap then 5
         else if w < 212 + leap then 6
         else if w < 243 + leap then 7
         else if w < 273 + leap then 8
         else if w < 304 + leap then 9
         else if w < 334 + leap then 10
         else 11) = m"
proof -
  from m have mc: "m = 0 \<or> m = 1 \<or> m = 2 \<or> m = 3 \<or> m = 4 \<or> m = 5 \<or> m = 6
      \<or> m = 7 \<or> m = 8 \<or> m = 9 \<or> m = 10 \<or> m = 11" by presburger
  from mc lo hi l show ?thesis
    apply (elim disjE)
    apply (simp_all add: DaysBeforeMonth_def)
    done
qed

lemma fields_of_day:
  assumes m: "0 \<le> m" "m < 12" and d: "1 \<le> d" "d \<le> DaysInMonth y m"
    and t: "Day t = DayFromYear y + DaysBeforeMonth (if DaysInYear y = 366 then 1 else 0) m + d - 1"
  shows "dateFields t = (y, m, d)"
proof -
  define leap :: int where "leap = (if DaysInYear y = 366 then 1 else 0)"
  define w where "w = DaysBeforeMonth leap m + d - 1"
  have l: "leap = 0 \<or> leap = 1" by (simp add: leap_def)
  have dim: "DaysInMonth y m
      = (if m = 1 then 28 + leap else if m = 3 \<or> m = 5 \<or> m = 8 \<or> m = 10 then 30 else 31)"
    by (simp add: DaysInMonth_def leap_def)
  have lo: "DaysBeforeMonth leap m \<le> w" using d by (simp add: w_def)
  have hi: "w < DaysBeforeMonth leap m
                 + (if m = 1 then 28 + leap else if m = 3 \<or> m = 5 \<or> m = 8 \<or> m = 10 then 30 else 31)"
    using d unfolding dim by (simp add: w_def)
  have diy: "DaysInYear y = 365 + leap"
    using DaysInYear_cases [of y] by (auto simp: leap_def)
  from m have mc: "m = 0 \<or> m = 1 \<or> m = 2 \<or> m = 3 \<or> m = 4 \<or> m = 5 \<or> m = 6
      \<or> m = 7 \<or> m = 8 \<or> m = 9 \<or> m = 10 \<or> m = 11" by presburger
  have w: "0 \<le> w \<and> w < DaysInYear y"
    unfolding diy using mc lo hi l
    apply (elim disjE)
    apply (simp_all add: DaysBeforeMonth_def)
    done
  from t have dt: "Day t = DayFromYear y + w" by (simp add: w_def leap_def)
  have y: "YearFromTime t = y"
    unfolding YearFromTime_def
    by (rule YearFromDay_unique) (use w dt DayFromYear_step [of y] in simp_all)
  have dw: "DayWithinYear t = w" by (simp add: DayWithinYear_def y dt)
  have il: "InLeapYear t = leap" by (simp add: InLeapYear_def y leap_def)
  have mo: "MonthFromTime t = m"
    unfolding MonthFromTime_def Let_def dw il
    by (rule month_of_day_within_year [OF m l lo hi])
  have "DateFromTime t = d"
    by (simp add: DateFromTime_def dw mo il w_def)
  with y mo show ?thesis by (simp add: dateFields_def)
qed

text \<open>
  \<^verbatim>\<open>MakeDay\<close> is what the ECMAScript specification defines: the day number of the
  first day of the month \<open>month mod 12\<close> of the year \<open>year + month div 12\<close>, plus
  \<open>date - 1\<close>.
\<close>

lemma MakeDay_first_of_month:
  assumes "Day t = MakeDay year month 1"
  shows "dateFields t = (year + month div 12, month mod 12, 1)"
proof (rule fields_of_day)
  show "0 \<le> month mod 12" "month mod 12 < 12" by simp_all
  show "(1::int) \<le> 1" by simp
  show "1 \<le> DaysInMonth (year + month div 12) (month mod 12)"
    by (simp add: DaysInMonth_def)
  from assms show "Day t = DayFromYear (year + month div 12)
      + DaysBeforeMonth (if DaysInYear (year + month div 12) = 366 then 1 else 0) (month mod 12)
      + 1 - 1"
    by (simp add: MakeDay_def Let_def)
qed

lemma MakeDay_date: "MakeDay year month date = MakeDay year month 1 + date - 1"
  by (simp add: MakeDay_def Let_def)

text \<open>
  Setting the day of the month to the current one plus \<open>k\<close> moves the local time by
  \<open>k\<close> days, whatever the month lengths: \<^verbatim>\<open>MakeDay\<close> carries the overflow. The
  new time value is that local time read by the offset in force there.
\<close>

lemma MakeDay_same_month:
  "MakeDay (YearFromTime t) (MonthFromTime t) (DateFromTime t + k) = Day t + k"
  using MonthFromTime_range [of t]
  by (simp add: MakeDay_def DateFromTime_def DayWithinYear_def InLeapYear_def Let_def)

lemma MakeDate_Day: "MakeDate (Day t + k) (TimeWithinDay t) = t + k * msPerDay"
  by (simp add: MakeDate_def Day_def TimeWithinDay_def algebra_simps)

lemma setDate_plus:
  "Date_setDate z (Some tv) (Number_plus (Date_getDate z (Some tv)) k)
     = TimeClip (UTC_of z (LocalTime z tv + k * msPerDay))"
  by (simp add: Date_setDate_def Date_getDate_def Number_plus_def Let_def MakeDay_same_month
      MakeDate_Day)

lemma advance_daily:
  "advance z Daily (Some tv) = TimeClip (UTC_of z (LocalTime z tv + msPerDay))"
  using setDate_plus [of z tv 1] by (simp add: advance_def)



lemma UTC_of_LocalTime_plus:
  "offsetAtLocal z (LocalTime z tv + x) = offsetAtUTC z tv \<Longrightarrow>
     UTC_of z (LocalTime z tv + x) = tv + x"
  by (simp add: UTC_of_def LocalTime_def)









lemma advance_monthly_fields:
  assumes "dateFields (LocalTime z tv) = (y, m, d)"
  shows "advance z Monthly (Some tv)
     = TimeClip (UTC_of z (MakeDate (MakeDay y (m + 1) d) (TimeWithinDay (LocalTime z tv))))"
  using assms
  by (simp add: advance_def Date_setMonth_def Date_getMonth_def Number_plus_def Let_def
      dateFields_def)

lemmas calendar_defs =
  Day_def msPerDay_def DayFromYear_def DaysInYear_def DaysBeforeMonth_def DaysInMonth_def
  TimeWithinDay_def MakeDate_def MakeDay_def TimeClip_def UTC_of_def LocalTime_def
  utcZone_def fixedZone_def centralEurope2024_def followingMonth_def oneCalendarMonthLater_def




text \<open>
  From 15 December 2023 to 15 January 2024; and, one hour east of Greenwich, from
  1 February 2024, 00:00 local time, to 1 March 2024, 00:00 local time.
\<close>

lemma fields_15_december: "dateFields (LocalTime utcZone 1702598400000) = (2023, 11, 15)"
  by (rule fields_of_day) (simp_all add: calendar_defs)

lemma advance_monthly_december:
  "advance utcZone Monthly (Some 1702598400000) = Some 1705276800000"
  unfolding advance_monthly_fields [OF fields_15_december] by (simp add: calendar_defs)

lemma fields_1_february_local:
  "dateFields (LocalTime (fixedZone 3600000) 1706742000000) = (2024, 1, 1)"
  by (rule fields_of_day) (simp_all add: calendar_defs)

lemma advance_monthly_local_time:
  "advance (fixedZone 3600000) Monthly (Some 1706742000000) = Some 1709247600000"
  unfolding advance_monthly_fields [OF fields_1_february_local] by (simp add: calendar_defs)

text \<open>
  Across a daylight-saving change a local day is not 24 hours: from 30 March 2024,
  12:00 UTC (13:00 in Central Europe), \<^verbatim>\<open>setDate(getDate() + 1)\<close> gives 31 March,
  13:00 local time, which is 11:00 UTC, 23 hours later. A result beyond the range of
  time values is NaN.
\<close>

lemma advance_daily_across_dst:
  "advance centralEurope2024 Daily (Some 1711800000000) = Some (1711800000000 + 82800000)"
  unfolding advance_daily by (simp add: calendar_defs)


section \<open>The planner\<close>

lemmas planner_defs =
  createPlan_def modeDispatch_def planSshAgent_def buildClone_def keepDestination_def
  destinationReachesHost_def hostReachesDestination_def scenarioHosts_def scenarioBlueprint_def sshTo_def

lemma planSshAgent_Inr:
  assumes "planSshAgent hosts bid bh hks strat dests agentId = Inr p"
  shows "\<exists>host agentRecord. hosts bh = Some host \<and> available host \<noteq> None
           \<and> hosts agentId = Some agentRecord \<and> map_of (ssh agentRecord) bh \<noteq> None
           \<and> p = PlanSshAgent bid host hks strat
                 ((buildClone hosts host bh agentId dests)
                    \<lparr>downloadLocally :=
                       (if redirectCloneTo (buildClone hosts host bh agentId dests) \<noteq> []
                           \<and> \<not> download_truthy (downloadLocally (buildClone hosts host bh agentId dests))
                        then DownloadFlag True
                        else downloadLocally (buildClone hosts host bh agentId dests))\<rparr>)"
  using assms
  by (auto simp: planSshAgent_def Let_def split: option.splits if_splits)

lemma createPlan_ssh_agent:
  assumes "fst (createPlan clock hosts b latestRun agentId) = PlanSshAgent pid h hks strat clone"
  shows "\<exists>bh dests. mode b = SshAgentMode bh hks strat dests
           \<and> planSshAgent hosts (bp_id b) bh hks strat dests agentId
               = Inr (PlanSshAgent pid h hks strat clone)"
proof -
  from assms have "modeDispatch hosts b agentId = PlanSshAgent pid h hks strat clone"
    by (auto simp: createPlan_def Let_def split: option.splits if_splits)
  then show ?thesis
    by (auto simp: modeDispatch_def split: BlueprintMode.splits sum.splits
        dest: planSshAgent_Inr)
qed

lemma buckets_of_clone:
  "directlyCloneTo (buildClone hosts host bh agentId dests)
     = filter (\<lambda>d. keepDestination hosts host agentId d \<and> hostReachesDestination host d) dests"
  "redirectCloneTo (buildClone hosts host bh agentId dests)
     = filter (\<lambda>d. keepDestination hosts host agentId d \<and> \<not> hostReachesDestination host d
                    \<and> \<not> destinationReachesHost hosts host d) dests"
  "receiveCloneFrom (buildClone hosts host bh agentId dests)
     = filter (\<lambda>d. keepDestination hosts host agentId d \<and> \<not> hostReachesDestination host d
                    \<and> destinationReachesHost hosts host d) dests"
  by (auto simp: buildClone_def Let_def intro: filter_cong)

lemma destinationReachesHost_cong:
  "dest_host d = dest_host e \<Longrightarrow>
     destinationReachesHost hosts host d = destinationReachesHost hosts host e"
  by (simp add: destinationReachesHost_def)

lemma hostReachesDestination_cong:
  "dest_host d = dest_host e \<Longrightarrow> hostReachesDestination host d = hostReachesDestination host e"
  by (simp add: hostReachesDestination_def)

lemma keepDestination_not_self:
  "keepDestination hosts host agentId d \<Longrightarrow>
     dest_host d \<noteq> agentId \<and> dest_host d \<noteq> host_id host"
  by (auto simp: keepDestination_def split: if_splits)

text \<open>
  C1. The claim: a source host whose \<open>available\<close> is \<^verbatim>\<open>unreachable\<close> makes the plan
  \<^verbatim>\<open>failed\<close>. The check \<^verbatim>\<open>!host.available\<close> rejects only an absent verdict: with
  the source host \<open>B\<close> marked \<^verbatim>\<open>unreachable\<close> and a destination on \<open>B\<close> itself,
  \<^verbatim>\<open>createPlan\<close> emits an \<^verbatim>\<open>ssh-agent\<close> plan whose host is the unreachable one.
\<close>

theorem createPlan_unreachable_source:
  "fst (createPlan \<lparr>now = 0, zone = utcZone\<rparr> (scenarioHosts (Some Unreachable) [] [])
          (scenarioBlueprint Daily [HostDestination ''B'' ''/keep/'']) None ''A'')
     = PlanSshAgent ''etc''
         \<lparr> host_id = ''B'', agent = None, available = Some Unreachable, ssh = [] \<rparr>
         None (Files [''/etc''])
         \<lparr> retainOnHost = RetainPath ''/keep/'', downloadLocally = DownloadFlag False,
           directlyCloneTo = [], redirectCloneTo = [], receiveCloneFrom = [] \<rparr>"
  by (simp add: planner_defs)

text \<open>
  C2. The claim: a validated blueprint fails exactly when all five of
  \<^verbatim>\<open>retainOnHost\<close>, \<^verbatim>\<open>downloadLocally\<close>, \<^verbatim>\<open>directlyCloneTo\<close>,
  \<^verbatim>\<open>redirectCloneTo\<close>, \<^verbatim>\<open>receiveCloneFrom\<close> are empty. The test before
  \<^verbatim>\<open>throw "no viable destinations"\<close> leaves \<^verbatim>\<open>receiveCloneFrom\<close> out: in the
  "Receive" scenario (\<open>B\<close> cannot reach \<open>C\<close>, \<open>C\<close> can reach \<open>B\<close>) the bucket
  \<^verbatim>\<open>receiveCloneFrom\<close> holds \<open>C\<close> and the plan is \<^verbatim>\<open>failed\<close>.
\<close>

theorem createPlan_receive_only_fails:
  "receiveCloneFrom
      (buildClone (scenarioHosts (Some Reachable) [] [(''B'', sshTo ''b.example'')])
         \<lparr> host_id = ''B'', agent = None, available = Some Reachable, ssh = [] \<rparr>
         ''B'' ''A'' [HostDestination ''C'' ''/bk/''])
     = [HostDestination ''C'' ''/bk/'']
   \<and> fst (createPlan \<lparr>now = 0, zone = utcZone\<rparr>
          (scenarioHosts (Some Reachable) [] [(''B'', sshTo ''b.example'')])
          (scenarioBlueprint Daily [HostDestination ''C'' ''/bk/'']) None ''A'')
     = PlanFailed ''etc''"
  by (simp add: planner_defs)



text \<open>
  C7. In every \<^verbatim>\<open>ssh-agent\<close> plan the three buckets name pairwise disjoint sets of
  hosts, no entry of a bucket names the agent or the source host (the \<^verbatim>\<open>_id\<close> of the
  plan's host, which is \<^verbatim>\<open>blueprint.host\<close> when the catalog stores every host under
  its own id), and every destination
  that survives the filter is in exactly one bucket: \<^verbatim>\<open>directlyCloneTo\<close> when the
  source host can reach it, otherwise \<^verbatim>\<open>receiveCloneFrom\<close> when it can reach the
  source host, otherwise \<^verbatim>\<open>redirectCloneTo\<close>.
\<close>

theorem createPlan_buckets_disjoint:
  assumes "fst (createPlan clock hosts b latestRun agentId) = PlanSshAgent pid h hks strat clone"
  shows "dest_host ` set (directlyCloneTo clone) \<inter> dest_host ` set (redirectCloneTo clone) = {}
       \<and> dest_host ` set (directlyCloneTo clone) \<inter> dest_host ` set (receiveCloneFrom clone) = {}
       \<and> dest_host ` set (redirectCloneTo clone) \<inter> dest_host ` set (receiveCloneFrom clone) = {}
       \<and> (\<forall>d \<in> set (directlyCloneTo clone) \<union> set (redirectCloneTo clone)
                 \<union> set (receiveCloneFrom clone).
             dest_host d \<noteq> agentId \<and> dest_host d \<noteq> host_id h)
       \<and> (\<forall>d \<in> set (bm_destinations (mode b)). keepDestination hosts h agentId d \<longrightarrow>
             (if hostReachesDestination h d
              then d \<in> set (directlyCloneTo clone) \<and> d \<notin> set (redirectCloneTo clone)
                   \<and> d \<notin> set (receiveCloneFrom clone)
              else if destinationReachesHost hosts h d
              then d \<notin> set (directlyCloneTo clone) \<and> d \<notin> set (redirectCloneTo clone)
                   \<and> d \<in> set (receiveCloneFrom clone)
              else d \<notin> set (directlyCloneTo clone) \<and> d \<in> set (redirectCloneTo clone)
                   \<and> d \<notin> set (receiveCloneFrom clone)))
       \<and> (keyed hosts \<longrightarrow>
            (\<forall>d \<in> set (directlyCloneTo clone) \<union> set (redirectCloneTo clone)
                   \<union> set (receiveCloneFrom clone).
               dest_host d \<noteq> bm_host (mode b)))"
proof -
  from createPlan_ssh_agent [OF assms] obtain bh dests where
    m: "mode b = SshAgentMode bh hks strat dests" and
    p: "planSshAgent hosts (bp_id b) bh hks strat dests agentId
          = Inr (PlanSshAgent pid h hks strat clone)"
    by blast
  let ?c = "buildClone hosts h bh agentId dests"
  from planSshAgent_Inr [OF p] have
    dir: "directlyCloneTo clone = directlyCloneTo ?c" and
    red: "redirectCloneTo clone = redirectCloneTo ?c" and
    rcv: "receiveCloneFrom clone = receiveCloneFrom ?c"
    by auto
  have d1: "dest_host ` set (directlyCloneTo clone) \<inter> dest_host ` set (redirectCloneTo clone) = {}"
    unfolding dir red buckets_of_clone
    by (auto dest: hostReachesDestination_cong [where host = h])
  have d2: "dest_host ` set (directlyCloneTo clone) \<inter> dest_host ` set (receiveCloneFrom clone) = {}"
    unfolding dir rcv buckets_of_clone
    by (auto dest: hostReachesDestination_cong [where host = h])
  have d3: "dest_host ` set (redirectCloneTo clone) \<inter> dest_host ` set (receiveCloneFrom clone) = {}"
    unfolding red rcv buckets_of_clone
    by (auto dest: destinationReachesHost_cong [where hosts = hosts and host = h])
  have d4: "\<forall>d \<in> set (directlyCloneTo clone) \<union> set (redirectCloneTo clone)
                 \<union> set (receiveCloneFrom clone).
             dest_host d \<noteq> agentId \<and> dest_host d \<noteq> host_id h"
    unfolding dir red rcv buckets_of_clone
    by (auto dest: keepDestination_not_self)
  have d5: "\<forall>d \<in> set (bm_destinations (mode b)). keepDestination hosts h agentId d \<longrightarrow>
             (if hostReachesDestination h d
              then d \<in> set (directlyCloneTo clone) \<and> d \<notin> set (redirectCloneTo clone)
                   \<and> d \<notin> set (receiveCloneFrom clone)
              else if destinationReachesHost hosts h d
              then d \<notin> set (directlyCloneTo clone) \<and> d \<notin> set (redirectCloneTo clone)
                   \<and> d \<in> set (receiveCloneFrom clone)
              else d \<notin> set (directlyCloneTo clone) \<and> d \<in> set (redirectCloneTo clone)
                   \<and> d \<notin> set (receiveCloneFrom clone))"
    unfolding dir red rcv buckets_of_clone m by auto
  from planSshAgent_Inr [OF p] have "hosts bh = Some h" by auto
  with d4 m have d6: "keyed hosts \<longrightarrow>
            (\<forall>d \<in> set (directlyCloneTo clone) \<union> set (redirectCloneTo clone)
                   \<union> set (receiveCloneFrom clone).
               dest_host d \<noteq> bm_host (mode b))"
    by (auto simp: keyed_def)
  from d1 d2 d3 d4 d5 d6 show ?thesis by blast
qed

lemma fanout_plan:
  "fst (createPlan \<lparr>now = 0, zone = utcZone\<rparr> fanoutHosts
          (scenarioBlueprint Daily fanoutDestinations) None ''A'')
     = PlanSshAgent ''etc''
         \<lparr> host_id = ''B'', agent = None, available = Some Reachable,
           ssh = [(''D'', sshTo ''d.example'')] \<rparr>
         None (Files [''/etc'']) fanoutClone"
  by (simp add: planner_defs fanoutHosts_def fanoutDestinations_def fanoutClone_def)

theorem createPlan_buckets_disjoint_witness:
  "fst (createPlan \<lparr>now = 0, zone = utcZone\<rparr> fanoutHosts
          (scenarioBlueprint Daily fanoutDestinations) None ''A'')
     = PlanSshAgent ''etc''
         \<lparr> host_id = ''B'', agent = None, available = Some Reachable,
           ssh = [(''D'', sshTo ''d.example'')] \<rparr>
         None (Files [''/etc'']) fanoutClone
   \<and> dest_host ` set (directlyCloneTo fanoutClone) = {''D''}
   \<and> dest_host ` set (redirectCloneTo fanoutClone) = {''C''}
   \<and> dest_host ` set (receiveCloneFrom fanoutClone) = {''E''}
   \<and> dest_host ` set (directlyCloneTo fanoutClone)
        \<inter> dest_host ` set (redirectCloneTo fanoutClone) = {}
   \<and> dest_host ` set (directlyCloneTo fanoutClone)
        \<inter> dest_host ` set (receiveCloneFrom fanoutClone) = {}
   \<and> dest_host ` set (redirectCloneTo fanoutClone)
        \<inter> dest_host ` set (receiveCloneFrom fanoutClone) = {}
   \<and> keyed fanoutHosts
   \<and> bm_host (mode (scenarioBlueprint Daily fanoutDestinations)) = ''B''"
proof -
  have k: "keyed fanoutHosts"
    by (auto simp: keyed_def fanoutHosts_def split: if_splits)
  from createPlan_buckets_disjoint [OF fanout_plan] fanout_plan k show ?thesis
    by (simp add: fanoutClone_def scenarioBlueprint_def)
qed

text \<open>
  C8. The claim: \<^verbatim>\<open>createPlan\<close> leaves its arguments, the \<^verbatim>\<open>lastRun\<close> timestamp
  in particular, unchanged. \<^verbatim>\<open>setDate\<close> and \<^verbatim>\<open>setMonth\<close> change the Date object
  that was passed in: after a call with a daily blueprint and \<^verbatim>\<open>lastRun\<close> at the
  epoch, the caller's object holds the next day.
\<close>

theorem createPlan_mutates_latestRun:
  "snd (createPlan \<lparr>now = 0, zone = utcZone\<rparr> fanoutHosts
          (scenarioBlueprint Daily fanoutDestinations) (Some (Some 0)) ''A'') \<noteq> Some (Some 0)"
  by (simp add: createPlan_def Let_def scenarioBlueprint_def advance_daily calendar_defs)

text \<open>
  C8, as amended. The plan is a function of the catalog, the blueprint, the time value of
  \<^verbatim>\<open>lastRun\<close>, the agent id and the clock, so equal values of these give equal
  plans; the catalog and the blueprint are only read; and the Date object passed as
  \<^verbatim>\<open>lastRun\<close>, when there is one, holds its time value advanced by the blueprint's
  interval after the call, whatever plan is returned.
\<close>

theorem createPlan_latestRun_effect:
  "snd (createPlan clock hosts b latestRun agentId)
     = map_option (advance (zone clock) (interval b)) latestRun"
  by (cases latestRun) (simp_all add: createPlan_def Let_def)

text \<open>
  A consequence: planning twice with the same Date object (rather than a copy of equal
  value) at the same clock reading can give two different plans. One and a half days
  after the last run a daily blueprint is due; the call moves the object half a day
  past the clock, and a second call with the object skips.
\<close>

lemma createPlan_same_object_twice:
  "fst (createPlan \<lparr>now = 129600000, zone = utcZone\<rparr> fanoutHosts
          (scenarioBlueprint Daily fanoutDestinations) (Some (Some 0)) ''A'')
     = modeDispatch fanoutHosts (scenarioBlueprint Daily fanoutDestinations) ''A''
   \<and> fst (createPlan \<lparr>now = 129600000, zone = utcZone\<rparr> fanoutHosts
          (scenarioBlueprint Daily fanoutDestinations)
          (snd (createPlan \<lparr>now = 129600000, zone = utcZone\<rparr> fanoutHosts
                  (scenarioBlueprint Daily fanoutDestinations) (Some (Some 0)) ''A'')) ''A'')
     = PlanSkipped ''etc''"
  by (simp add: createPlan_def Let_def scenarioBlueprint_def advance_daily Number_gt_def
      calendar_defs)

section \<open>The catalog adapter\<close>

lemma probe_always_reachable: "probe network c = Reachable"
  by (simp add: probe_def)

text \<open>
  C3. The claim: a peer whose probe connection fails is marked \<^verbatim>\<open>unreachable\<close>. The
  promise of \<^verbatim>\<open>ssh.connect(sshConfig)\<close> is not awaited, so its rejection never
  reaches the \<^verbatim>\<open>catch\<close> block: with an agent \<open>A\<close> that holds parameters for
  \<open>B\<close> and a network on which every connection is refused, \<^verbatim>\<open>fetchHosts\<close> marks
  \<open>B\<close> \<^verbatim>\<open>reachable\<close>.
\<close>

theorem fetchHosts_marks_failed_probe_reachable:
  "NodeSSH_connect (\<lambda>c. Some ''Error: connect ECONNREFUSED'') (sshTo ''b.example'')
     = RejectedWith ''Error: connect ECONNREFUSED''
   \<and> fetchHosts (\<lambda>c. Some ''Error: connect ECONNREFUSED'') ''A'' catalogDocuments ''B''
     = Some \<lparr> host_id = ''B'', agent = None, available = Some Reachable, ssh = [] \<rparr>"
  by (simp add: fetchHosts_def indexHosts_def catalogDocuments_def probe_def NodeSSH_connect_def
      sshTo_def)

text \<open>
  The result of \<^verbatim>\<open>fetchHosts\<close> does not depend on the network at all; had the
  connection been awaited, the refused probe would have given \<^verbatim>\<open>unreachable\<close>.
\<close>

lemma fetchHosts_ignores_network:
  "fetchHosts network agentId results = fetchHosts network' agentId results"
  unfolding fetchHosts_def probe_always_reachable by (rule refl)

lemma probe_awaited_refused:
  "probe_awaited (\<lambda>c. Some ''Error: connect ECONNREFUSED'') (sshTo ''b.example'') = Unreachable"
  by (simp add: probe_awaited_def NodeSSH_connect_def)

text \<open>\<^verbatim>\<open>fetchHosts\<close> stores every host under its own id.\<close>

lemma keyed_upd: "keyed m \<Longrightarrow> host_id h = k \<Longrightarrow> keyed (m(k \<mapsto> h))"
  by (simp add: keyed_def)

lemma keyed_indexHosts: "keyed (indexHosts agentId results)"
proof -
  have "keyed (fold (\<lambda>host hosts.
             hosts(host_id host \<mapsto> (if host_id host = agentId then host\<lparr>agent := Some True\<rparr> else host)))
       results m)" if "keyed m" for m
    using that
  proof (induction results arbitrary: m)
    case Nil
    then show ?case by simp
  next
    case (Cons a results)
    have "keyed (m(host_id a \<mapsto> (if host_id a = agentId then a\<lparr>agent := Some True\<rparr> else a)))"
      by (rule keyed_upd [OF Cons.prems]) simp
    from Cons.IH [OF this] show ?case by simp
  qed
  moreover have "keyed Map.empty" by (simp add: keyed_def)
  ultimately show ?thesis unfolding indexHosts_def by blast
qed

lemma keyed_fetchHosts: "keyed (fetchHosts network agentId results)"
proof -
  have step: "keyed (fold (\<lambda>hostId hs.
                     case hs hostId of
                       None \<Rightarrow> hs
                     | Some h \<Rightarrow>
                         (case map_of cfgs hostId of
                            None \<Rightarrow> hs
                          | Some sshConfig \<Rightarrow>
                              hs(hostId \<mapsto> h\<lparr>available := Some (probe network sshConfig)\<rparr>)))
               ks m)" if "keyed m" for m ks cfgs
    using that
  proof (induction ks arbitrary: m)
    case Nil
    then show ?case by simp
  next
    case (Cons k ks)
    have "keyed (case m k of
                       None \<Rightarrow> m
                     | Some h \<Rightarrow>
                         (case map_of cfgs k of
                            None \<Rightarrow> m
                          | Some sshConfig \<Rightarrow>
                              m(k \<mapsto> h\<lparr>available := Some (probe network sshConfig)\<rparr>)))"
      using Cons.prems by (auto simp: keyed_def split: option.splits)
    from Cons.IH [OF this] show ?case by simp
  qed
  show ?thesis
  proof (cases "indexHosts agentId results agentId")
    case None
    then show ?thesis using keyed_indexHosts [of agentId results]
      by (simp add: fetchHosts_def Let_def)
  next
    case (Some agentHost)
    then show ?thesis using step [OF keyed_indexHosts [of agentId results]]
      by (simp add: fetchHosts_def Let_def)
  qed
qed

section \<open>Rules for the triples\<close>

lemmas io_defs =
  returnIO_def throwIO_def bindIO_def thenIO_def catchIO_def perform_def performIO_def logIO_def
  createSSHExecutor_def ready_def finish_def tmp_def isoNow_def

lemmas executor_defs =
  runHook_def hookPre_def hookPost_def buildArchive_def executeWith_def SSHExecutor_execute_def
  SSHExecutor_execute_helpers_def SSHExecutor_move_def SSHExecutor_download_def
  SSHExecutor_upload_def SSHExecutor_delete_def assertRemote_def SSHExecutor_scpDownload_def
  SSHExecutor_scpUpload_def sshOf_def replaceSlashes_def backupNameOf_def uploadDirectly_def
  receiveOn_def redirectTo_def downloadBlock_def retainBlock_def execute_def 
  coordinate_def sshOfHost_def downloadBlock_agent_def execute_agent_def runPlan_agent_def
  initialState_def

lemmas world_defs =
  okResponse_def worldWhere_def calmWorld_def tarFails_def hooksExit1_def hooksRejected_def
  fanoutHosts_def fanoutClone_def fanoutPlan_def stagedClone_def stagedPlan_def sshTo_def migrateHooks_def
  sourceExecutor_def

lemma tripleI:
  "(\<And>s v s'. P s \<Longrightarrow> m s = (Inr v, s') \<Longrightarrow> Q v s')
   \<Longrightarrow> (\<And>s err s'. P s \<Longrightarrow> m s = (Inl err, s') \<Longrightarrow> E s')
   \<Longrightarrow> triple P m Q E"
  by (auto simp: triple_def split: sum.splits)

lemma tripleD_Inr: "triple P m Q E \<Longrightarrow> P s \<Longrightarrow> m s = (Inr v, s') \<Longrightarrow> Q v s'"
  by (auto simp: triple_def split: sum.splits)

lemma tripleD_Inl: "triple P m Q E \<Longrightarrow> P s \<Longrightarrow> m s = (Inl err, s') \<Longrightarrow> E s'"
  by (auto simp: triple_def split: sum.splits)

lemma triple_return: "(\<And>s. P s \<Longrightarrow> Q v s) \<Longrightarrow> triple P (returnIO v) Q E"
  by (simp add: triple_def returnIO_def)

lemma triple_throw: "(\<And>s. P s \<Longrightarrow> E s) \<Longrightarrow> triple P (throwIO err) Q E"
  by (simp add: triple_def throwIO_def)

lemma triple_bind:
  assumes m: "triple P m R E" and f: "\<And>v. triple (R v) (f v) Q E"
  shows "triple P (bindIO m f) Q E"
proof (rule tripleI)
  fix s v s' assume P: "P s" and r: "bindIO m f s = (Inr v, s')"
  obtain r0 s0 where ms: "m s = (r0, s0)" by (cases "m s")
  with r obtain v0 where r0: "r0 = Inr v0" and fs: "f v0 s0 = (Inr v, s')"
    by (cases r0) (auto simp: bindIO_def)
  from tripleD_Inr [OF m P ms [unfolded r0]] have "R v0 s0" .
  from tripleD_Inr [OF f this fs] show "Q v s'" .
next
  fix s err s' assume P: "P s" and r: "bindIO m f s = (Inl err, s')"
  obtain r0 s0 where ms: "m s = (r0, s0)" by (cases "m s")
  show "E s'"
  proof (cases r0)
    case (Inl e0)
    with r ms have "s' = s0" by (simp add: bindIO_def)
    with tripleD_Inl [OF m P ms [unfolded Inl]] show ?thesis by simp
  next
    case (Inr v0)
    with r ms have fs: "f v0 s0 = (Inl err, s')" by (simp add: bindIO_def)
    from tripleD_Inr [OF m P ms [unfolded Inr]] have "R v0 s0" .
    from tripleD_Inl [OF f this fs] show ?thesis .
  qed
qed

lemma triple_then:
  "triple P m (\<lambda>v. R) E \<Longrightarrow> triple R n Q E \<Longrightarrow> triple P (thenIO m n) Q E"
  unfolding thenIO_def by (rule triple_bind)

lemma triple_catch:
  assumes m: "triple P m Q E'" and h: "\<And>err. triple E' (handler err) Q E"
  shows "triple P (catchIO m handler) Q E"
proof -
  have "case catchIO m handler s of (Inr v, s') \<Rightarrow> Q v s' | (Inl err, s') \<Rightarrow> E s'"
    if P: "P s" for s
  proof -
    obtain r0 s0 where ms: "m s = (r0, s0)" by (cases "m s")
    show ?thesis
    proof (cases r0)
      case (Inl e0)
      from tripleD_Inl [OF m P ms [unfolded Inl]] have "E' s0" .
      with h [of e0] have "case handler e0 s0 of (Inr v, s') \<Rightarrow> Q v s' | (Inl err, s') \<Rightarrow> E s'"
        by (simp add: triple_def)
      with ms Inl show ?thesis by (simp add: catchIO_def)
    next
      case (Inr v0)
      from tripleD_Inr [OF m P ms [unfolded Inr]] have "Q v0 s0" .
      with ms Inr show ?thesis by (simp add: catchIO_def)
    qed
  qed
  then show ?thesis by (simp add: triple_def)
qed

lemma inv_bind:
  "triple I m (\<lambda>v. I) E \<Longrightarrow> (\<And>v. triple I (f v) Q E) \<Longrightarrow> triple I (bindIO m f) Q E"
  by (rule triple_bind)

lemma inv_then:
  "triple I m (\<lambda>v. I) E \<Longrightarrow> triple I n Q E \<Longrightarrow> triple I (thenIO m n) Q E"
  by (rule triple_then)

lemma triple_forEach:
  "(\<And>x. triple I (body x) (\<lambda>v. I) E) \<Longrightarrow> triple I (forEachIO body xs) (\<lambda>v. I) E"
  by (induction xs) (auto intro: triple_return triple_then)

lemma triple_weaken:
  "triple P' m Q' E' \<Longrightarrow> (\<And>s. P s \<Longrightarrow> P' s) \<Longrightarrow> (\<And>v s. Q' v s \<Longrightarrow> Q v s)
   \<Longrightarrow> (\<And>s. E' s \<Longrightarrow> E s) \<Longrightarrow> triple P m Q E"
  by (fastforce simp: triple_def split: sum.splits prod.splits)

lemma triple_log: "(\<And>s. P s \<Longrightarrow> Q () (s\<lparr>logLines := logLines s @ [line]\<rparr>)) \<Longrightarrow> triple P (logIO line) Q E"
  by (simp add: triple_def logIO_def)

lemma triple_perform:
  "(\<And>s out. P s \<Longrightarrow> R (s\<lparr>trace := trace s @ [(op, out)]\<rparr>))
   \<Longrightarrow> triple P (performIO w op) (\<lambda>v. R) R"
  by (auto simp: triple_def performIO_def perform_def bindIO_def returnIO_def Let_def
      split: Outcome.splits)

subsection \<open>Operations that leave the open sessions as they are\<close>

lemma openSessions_snoc: "openSessions (tr @ [ev]) = sessionStep (openSessions tr) ev"
  by (simp add: openSessions_def)

lemma sessionStep_other: "\<not> sessionOp op \<Longrightarrow> sessionStep S (op, out) = S"
  by (cases op) auto

lemma holding_numbered: "holding S s \<Longrightarrow> numbered s"
  by (auto simp: holding_def numbered_def)

lemma holding_perform:
  "\<not> sessionOp op \<Longrightarrow> triple (holding S) (performIO w op) (\<lambda>v. holding S) (holding S)"
  by (rule triple_perform) (simp add: holding_def openSessions_snoc sessionStep_other)

lemma holding_log: "triple (holding S) (logIO line) (\<lambda>v. holding S) E"
  by (rule triple_log) (simp add: holding_def)

lemma holding_sshOf: "triple (holding S) (sshOf hosts a b) (\<lambda>v. holding S) numbered"
  by (auto simp: sshOf_def intro: triple_return triple_throw holding_numbered split: option.splits)

lemma holding_create:
  "triple (holding S) (createSSHExecutor c)
     (\<lambda>ex s. holding S s \<and> session ex \<notin> set S \<and> session ex < nextSession s) E"
  by (auto simp: triple_def createSSHExecutor_def holding_def less_Suc_eq)

lemma holding_ready:
  "triple (\<lambda>s. holding S s \<and> session ex \<notin> set S \<and> session ex < nextSession s) (ready w ex)
     (\<lambda>v. holding (S @ [session ex])) numbered"
  by (auto simp: triple_def ready_def performIO_def perform_def bindIO_def returnIO_def Let_def
      holding_def numbered_def openSessions_snoc split: Outcome.splits)

lemma holding_finish:
  "session ex \<notin> set S \<Longrightarrow> triple (holding (S @ [session ex])) (finish ex) (\<lambda>v. holding S) E"
  by (auto simp: triple_def finish_def holding_def openSessions_snoc filter_id_conv)

lemma holding_assertRemote: "triple (holding S) (assertRemote r) (\<lambda>v. holding S) numbered"
  by (auto simp: assertRemote_def intro: triple_return triple_throw holding_numbered
      split: option.splits)

lemma holding_perform_any:
  "\<not> sessionOp op \<Longrightarrow> triple (holding S) (performIO w op) (\<lambda>v. holding S) numbered"
  by (rule triple_weaken [OF holding_perform]) (auto intro: holding_numbered)

lemma holding_runHook:
  "triple (holding S) (runHook w ex hook) (\<lambda>v. holding S) numbered"
  by (auto simp: runHook_def intro: triple_return holding_perform_any split: option.splits)

lemma holding_isoNow: "triple (holding S) (isoNow w) (\<lambda>v. holding S) E"
  by (simp add: triple_def isoNow_def)

lemma holding_tmp: "triple (holding S) (tmp w) (\<lambda>v. holding S) E"
  by (simp add: triple_def tmp_def)

lemma holding_buildArchive:
  "triple (holding S) (buildArchive f w ex pkgFn strat) (\<lambda>v. holding S) numbered"
proof (cases strat)
  case (Files ps)
  then show ?thesis by (simp add: buildArchive_def holding_perform_any)
next
  case (MongoDB url)
  have c: "triple (holding S)
             (catchIO (performIO w (Exec (session ex) ''mongodump'' [''-o'', fn, url]))
                (\<lambda>err. if String_includes err ''Failed'' then throwIO err else returnIO ()))
             (\<lambda>v. holding S) numbered" for fn
    by (rule triple_catch [OF holding_perform])
       (auto intro: triple_return triple_throw holding_numbered)
  show ?thesis
    unfolding buildArchive_def MongoDB BackupStrategy.case Let_def
    by (intro inv_bind [OF holding_isoNow] inv_then [OF c] inv_then holding_perform_any) simp_all
qed

lemma holding_executeWith:
  "triple (holding S) (executeWith f w ex hks strat) (\<lambda>v. holding S) numbered"
  unfolding executeWith_def
  by (intro inv_bind [OF holding_tmp] inv_then holding_runHook holding_buildArchive
      triple_return) simp

lemma holding_scpUpload:
  "triple (holding S) (SSHExecutor_scpUpload w ex f r g) (\<lambda>v. holding S) numbered"
  unfolding SSHExecutor_scpUpload_def
  by (intro inv_bind [OF holding_assertRemote] holding_perform_any) simp

lemma holding_scpDownload:
  "triple (holding S) (SSHExecutor_scpDownload w ex f r g) (\<lambda>v. holding S) numbered"
  unfolding SSHExecutor_scpDownload_def
  by (intro inv_bind [OF holding_assertRemote] holding_perform_any) simp

lemma holding_uploadDirectly:
  "triple (holding S) (uploadDirectly w hosts ex h pkgFn bn d) (\<lambda>v. holding S) numbered"
  unfolding uploadDirectly_def
  by (intro inv_then [OF holding_log] inv_bind [OF holding_sshOf] holding_scpUpload)

text \<open>A block that opens a session of its own and, if all goes well, closes it.\<close>

lemma holding_session_block:
  assumes rest: "\<And>ex. session ex \<notin> set S \<Longrightarrow>
                   triple (holding (S @ [session ex])) (rest ex) (\<lambda>v. holding S) numbered"
  shows "triple (holding S)
           (bindIO (createSSHExecutor c) (\<lambda>ex. thenIO (ready w ex) (rest ex)))
           (\<lambda>v. holding S) numbered"
proof (rule triple_bind [OF holding_create])
  fix ex
  show "triple (\<lambda>s. holding S s \<and> session ex \<notin> set S \<and> session ex < nextSession s)
          (thenIO (ready w ex) (rest ex)) (\<lambda>v. holding S) numbered"
  proof (cases "session ex \<in> set S")
    case True
    then show ?thesis by (simp add: triple_def)
  next
    case False
    from rest [OF False] show ?thesis
      by (rule triple_then [OF holding_ready])
  qed
qed

lemma holding_upload:
  "triple (holding S) (SSHExecutor_upload w ex f g) (\<lambda>v. holding S) numbered"
  unfolding SSHExecutor_upload_def by (rule holding_perform_any) simp

lemma holding_download:
  "triple (holding S) (SSHExecutor_download w ex f g) (\<lambda>v. holding S) numbered"
  unfolding SSHExecutor_download_def by (rule holding_perform_any) simp

lemma holding_move:
  "triple (holding S) (SSHExecutor_move w ex f g) (\<lambda>v. holding S) numbered"
  unfolding SSHExecutor_move_def by (rule holding_perform_any) simp

lemma holding_delete:
  "triple (holding S) (SSHExecutor_delete w ex f) (\<lambda>v. holding S) numbered"
  unfolding SSHExecutor_delete_def by (rule holding_perform_any) simp

lemma holding_receiveOn:
  "triple (holding S) (receiveOn w hosts agentId h pkgFn bn d) (\<lambda>v. holding S) numbered"
  unfolding receiveOn_def
  by (intro inv_then [OF holding_log] inv_bind [OF holding_sshOf] holding_session_block
      inv_bind [OF holding_sshOf] triple_then [OF holding_scpDownload] holding_finish)

lemma holding_redirectTo:
  "triple (holding S) (redirectTo w hosts agentId lf bn d) (\<lambda>v. holding S) numbered"
  unfolding redirectTo_def
  by (intro inv_then [OF holding_log] inv_bind [OF holding_sshOf] holding_session_block
      triple_then [OF holding_upload] holding_finish)

lemma holding_downloadBlock:
  "triple (holding S) (downloadBlock w hosts agentId ex pkgFn bn clone) (\<lambda>v. holding S) numbered"
proof -
  have tail: "triple (holding S)
      (case downloadLocally clone of
         DownloadPath p \<Rightarrow> returnIO ()
       | DownloadFlag b \<Rightarrow>
           thenIO (logIO ''Removing local copy of backup'') (performIO w (LocalRm lf)))
      (\<lambda>v. holding S) numbered" for lf
    by (cases "downloadLocally clone")
       (auto intro!: triple_return inv_then [OF holding_log] holding_perform_any)
  show ?thesis
    unfolding downloadBlock_def Let_def
    by (auto intro!: triple_return inv_then [OF holding_log] inv_then [OF holding_download]
        inv_then [OF triple_forEach] holding_redirectTo tail)
qed

lemma holding_retainBlock:
  "triple (holding S) (retainBlock w ex pkgFn bn clone) (\<lambda>v. holding S) numbered"
  unfolding retainBlock_def
  by (cases "retainOnHost clone")
     (auto intro!: inv_then [OF holding_log] holding_move holding_delete)

lemma holding_execute:
  "triple (holding S) (execute w hosts agentId plan) (\<lambda>v. holding S) numbered"
proof (cases plan)
  case (PlanSshAgent pid planHost hks strat clone)
  show ?thesis
    unfolding execute_def PlanSshAgent Plan.case Let_def SSHExecutor_execute_def
    by (intro inv_then [OF holding_log] inv_bind [OF holding_sshOf] holding_session_block
        inv_bind [OF holding_executeWith] inv_bind [OF holding_isoNow]
        inv_then [OF triple_forEach] holding_uploadDirectly holding_receiveOn
        inv_then [OF holding_downloadBlock] inv_then [OF holding_retainBlock]
        triple_then [OF holding_finish] holding_log)
next
  case (PlanSkipped pid)
  then show ?thesis by (simp add: execute_def holding_log)
next
  case (PlanFailed pid)
  then show ?thesis by (simp add: execute_def holding_log)
qed

subsection \<open>Operations that extend the trace within a set of operations\<close>

lemma grows_refl: "grows \<phi> (trace s) s"
  by (simp add: grows_def)

lemma growsD:
  assumes t: "triple (grows \<phi> (trace s)) m (\<lambda>v. grows \<phi> (trace s)) (grows \<phi> (trace s))"
    and m: "m s = (r, s')"
  shows "\<exists>new. trace s' = trace s @ new \<and> (\<forall>e \<in> set new. \<phi> (fst e))"
proof (cases r)
  case (Inl e)
  from tripleD_Inl [OF t grows_refl m [unfolded Inl]] show ?thesis by (simp add: grows_def)
next
  case (Inr v)
  from tripleD_Inr [OF t grows_refl m [unfolded Inr]] show ?thesis by (simp add: grows_def)
qed

lemma grows_perform:
  "\<phi> op \<Longrightarrow> triple (grows \<phi> T) (performIO w op) (\<lambda>v. grows \<phi> T) (grows \<phi> T)"
  by (rule triple_perform) (auto simp: grows_def)

lemma grows_log: "triple (grows \<phi> T) (logIO line) (\<lambda>v. grows \<phi> T) E"
  by (rule triple_log) (simp add: grows_def)

lemma grows_sshOf: "triple (grows \<phi> T) (sshOf hosts a b) (\<lambda>v. grows \<phi> T) (grows \<phi> T)"
  by (auto simp: sshOf_def intro: triple_return triple_throw split: option.splits)

lemma grows_assertRemote: "triple (grows \<phi> T) (assertRemote r) (\<lambda>v. grows \<phi> T) (grows \<phi> T)"
  by (auto simp: assertRemote_def intro: triple_return triple_throw split: option.splits)

lemma grows_create: "triple (grows \<phi> T) (createSSHExecutor c) (\<lambda>v. grows \<phi> T) E"
  by (simp add: triple_def createSSHExecutor_def grows_def)

lemma grows_ready:
  "\<phi> (Connect (session ex) (config ex)) \<Longrightarrow>
     triple (grows \<phi> T) (ready w ex) (\<lambda>v. grows \<phi> T) (grows \<phi> T)"
  unfolding ready_def by (rule grows_perform)

lemma grows_finish:
  "\<phi> (Dispose (session ex)) \<Longrightarrow> triple (grows \<phi> T) (finish ex) (\<lambda>v. grows \<phi> T) E"
  by (auto simp: triple_def finish_def grows_def)

lemma grows_isoNow: "triple (grows \<phi> T) (isoNow w) (\<lambda>v. grows \<phi> T) E"
  by (simp add: triple_def isoNow_def)

lemma grows_tmp: "triple (grows \<phi> T) (tmp w) (\<lambda>v. grows \<phi> T) E"
  by (simp add: triple_def tmp_def)

lemma grows_runHook:
  "(\<And>a b. \<phi> (ExecCommand (session ex) a b)) \<Longrightarrow>
     triple (grows \<phi> T) (runHook w ex hook) (\<lambda>v. grows \<phi> T) (grows \<phi> T)"
  by (auto simp: runHook_def intro!: triple_return grows_perform split: option.splits)

lemma grows_buildArchive:
  assumes "\<And>ps. \<phi> (Exec (session ex) ''tar'' ([''czvfP'', pkgFn] @ ps))"
    and "\<And>fn. \<phi> (Exec (session ex) ''tar'' [f, pkgFn, fn])"
    and "\<And>args. \<phi> (Exec (session ex) ''mongodump'' args)"
    and "\<And>args. \<phi> (Exec (session ex) ''rm'' args)"
  shows "triple (grows \<phi> T) (buildArchive f w ex pkgFn strat) (\<lambda>v. grows \<phi> T) (grows \<phi> T)"
proof (cases strat)
  case (Files ps)
  then show ?thesis using assms(1) by (simp add: buildArchive_def grows_perform)
next
  case (MongoDB url)
  have c: "triple (grows \<phi> T)
             (catchIO (performIO w (Exec (session ex) ''mongodump'' [''-o'', fn, url]))
                (\<lambda>err. if String_includes err ''Failed'' then throwIO err else returnIO ()))
             (\<lambda>v. grows \<phi> T) (grows \<phi> T)" for fn
    by (rule triple_catch [where E' = "grows \<phi> T"])
       (auto intro!: grows_perform assms(3) triple_return triple_throw)
  show ?thesis
    unfolding buildArchive_def MongoDB BackupStrategy.case Let_def
    by (intro inv_bind [OF grows_isoNow] inv_then [OF c] inv_then grows_perform assms)
qed

lemma grows_executeWith:
  assumes "\<And>sid a b. \<phi> (ExecCommand sid a b)"
    and "\<And>pkgFn ps. \<phi> (Exec (session ex) ''tar'' ([''czvfP'', pkgFn] @ ps))"
    and "\<And>pkgFn fn. \<phi> (Exec (session ex) ''tar'' [f, pkgFn, fn])"
    and "\<And>args. \<phi> (Exec (session ex) ''mongodump'' args)"
    and "\<And>args. \<phi> (Exec (session ex) ''rm'' args)"
  shows "triple (grows \<phi> T) (executeWith f w ex hks strat) (\<lambda>v. grows \<phi> T) (grows \<phi> T)"
  unfolding executeWith_def
  by (intro inv_bind [OF grows_tmp] inv_then grows_runHook grows_buildArchive triple_return assms)

lemma grows_scpUpload:
  "(\<And>args. \<phi> (Exec (session ex) ''scp'' args)) \<Longrightarrow>
     triple (grows \<phi> T) (SSHExecutor_scpUpload w ex f r g) (\<lambda>v. grows \<phi> T) (grows \<phi> T)"
  unfolding SSHExecutor_scpUpload_def
  by (intro inv_bind [OF grows_assertRemote] grows_perform)

lemma grows_scpDownload:
  "(\<And>args. \<phi> (Exec (session ex) ''scp'' args)) \<Longrightarrow>
     triple (grows \<phi> T) (SSHExecutor_scpDownload w ex f r g) (\<lambda>v. grows \<phi> T) (grows \<phi> T)"
  unfolding SSHExecutor_scpDownload_def
  by (intro inv_bind [OF grows_assertRemote] grows_perform)

section \<open>The SSH executor\<close>

lemma executeWith_pre_hook:
  assumes "hookPre hks = Some h"
  shows "executeWith f w ex hks strat s =
     (let ev = ExecCommand (session ex) (cmd h) (cwd h);
          out = respond w (trace s) ev;
          s1 = s\<lparr>trace := trace s @ [(ev, out)]\<rparr>;
          pkgFn = ''/tmp/backup'' @ drop 2 (mathRandom w (trace s)) @ ''.tar.gz''
      in case out of
           Rejects err \<Rightarrow> (Inl err, s1)
         | Resolves resp \<Rightarrow> afterPreHook f w ex hks strat pkgFn s1)"
  using assms
  by (simp add: executeWith_def afterPreHook_def runHook_def io_defs Let_def
      split: Outcome.splits)

text \<open>
  C5. The claim: the pre-hook runs in its working directory before the archive build,
  and a non-zero exit status of the hook makes \<^verbatim>\<open>execute\<close> raise. The second half
  fails: \<^verbatim>\<open>execCommand\<close> reports the exit status in the response it resolves with,
  and \<^verbatim>\<open>execute\<close> drops that response. With a hook that exits with status 1,
  \<^verbatim>\<open>execute\<close> goes on to \<^verbatim>\<open>tar\<close> and returns the archive path.
\<close>

theorem SSHExecutor_execute_ignores_exit_status:
  "SSHExecutor_execute hooksExit1 sourceExecutor migrateHooks (Files [''/etc'']) initialState
     = (Inr ''/tmp/backup5772.tar.gz'',
        initialState\<lparr>trace :=
          [(ExecCommand 0 ''./freeze.sh'' ''/srv/app'',
            Resolves \<lparr> stdout = [], stderr = [], code = Some 1 \<rparr>),
           (Exec 0 ''tar'' [''czvfP'', ''/tmp/backup5772.tar.gz'', ''/etc''],
            Resolves okResponse)]\<rparr>)"
  by (simp add: io_defs executor_defs world_defs Let_def)

text \<open>
  C5, as amended. With \<^verbatim>\<open>hooks.pre\<close> set, the first operation of
  \<^verbatim>\<open>execute\<close> is \<^verbatim>\<open>execCommand\<close> with the hook's command and working
  directory. If \<^verbatim>\<open>execCommand\<close> rejects, \<^verbatim>\<open>execute\<close> throws that error and does
  nothing else; if it resolves, \<^verbatim>\<open>execute\<close> continues with the archive build and the
  post-hook, whatever the response (and its exit status) is. This holds for both
  revisions of the method.
\<close>

theorem SSHExecutor_execute_pre_hook:
  assumes "hookPre hks = Some h"
  shows "SSHExecutor_execute w ex hks strat s =
     (let ev = ExecCommand (session ex) (cmd h) (cwd h);
          out = respond w (trace s) ev;
          s1 = s\<lparr>trace := trace s @ [(ev, out)]\<rparr>;
          pkgFn = ''/tmp/backup'' @ drop 2 (mathRandom w (trace s)) @ ''.tar.gz''
      in case out of
           Rejects err \<Rightarrow> (Inl err, s1)
         | Resolves resp \<Rightarrow> afterPreHook ''cvfP'' w ex hks strat pkgFn s1)
   \<and> SSHExecutor_execute_helpers w ex hks strat s =
     (let ev = ExecCommand (session ex) (cmd h) (cwd h);
          out = respond w (trace s) ev;
          s1 = s\<lparr>trace := trace s @ [(ev, out)]\<rparr>;
          pkgFn = ''/tmp/backup'' @ drop 2 (mathRandom w (trace s)) @ ''.tar.gz''
      in case out of
           Rejects err \<Rightarrow> (Inl err, s1)
         | Resolves resp \<Rightarrow> afterPreHook ''czvfP'' w ex hks strat pkgFn s1)"
  unfolding SSHExecutor_execute_def SSHExecutor_execute_helpers_def
  using executeWith_pre_hook [OF assms] by blast

lemma migrate_pre:
  "hookPre migrateHooks = Some \<lparr> cwd = ''/srv/app'', cmd = ''./freeze.sh'' \<rparr>"
  by (simp add: hookPre_def migrateHooks_def)

theorem SSHExecutor_execute_pre_hook_witness:
  "SSHExecutor_execute hooksRejected sourceExecutor migrateHooks (Files [''/etc'']) initialState
     = (Inl ''Error: Not connected to server'',
        initialState\<lparr>trace := [(ExecCommand 0 ''./freeze.sh'' ''/srv/app'',
                                  Rejects ''Error: Not connected to server'')]\<rparr>)"
  using SSHExecutor_execute_pre_hook [OF migrate_pre, of hooksRejected sourceExecutor
      "Files [''/etc'']" initialState]
  by (simp add: world_defs initialState_def Let_def)

text \<open>
  C9. The claim: \<^verbatim>\<open>tar czvfP\<close> for the \<^verbatim>\<open>files\<close> strategy, \<^verbatim>\<open>tar cvfP\<close>
  followed by \<^verbatim>\<open>rm -r\<close> for the \<^verbatim>\<open>mongodb\<close> strategy. The revision of
  \<^verbatim>\<open>SSHExecutor.execute\<close> in \<^verbatim>\<open>src/src/executorHelpers.ts\<close> passes
  \<^verbatim>\<open>czvfP\<close> to \<^verbatim>\<open>tar\<close> for the \<^verbatim>\<open>mongodb\<close> strategy as well.
\<close>

theorem SSHExecutor_execute_helpers_mongodb_gzip:
  "map fst (trace (snd (SSHExecutor_execute_helpers calmWorld sourceExecutor None
                          (MongoDB ''mongodb://db/app'') initialState)))
     = [Exec 0 ''mongodump''
          [''-o'', ''/tmp/mongodump_2024-01-31T00:00:00.000Z'', ''mongodb://db/app''],
        Exec 0 ''tar''
          [''czvfP'', ''/tmp/backup5772.tar.gz'', ''/tmp/mongodump_2024-01-31T00:00:00.000Z''],
        Exec 0 ''rm'' [''-r'', ''/tmp/mongodump_2024-01-31T00:00:00.000Z'']]"
  by (simp add: io_defs executor_defs world_defs Let_def)

text \<open>
  The revision that follows \<^verbatim>\<open>run.ts\<close> does what the claim says. The operations
  of a successful \<^verbatim>\<open>execute\<close> are the pre-hook, the archive build and the
  post-hook, in this order, and every \<^verbatim>\<open>tar\<close> call of either revision, on every
  path, has \<open>P\<close> among its flags.
\<close>

lemma SSHExecutor_execute_mongodb_plain:
  "map fst (trace (snd (SSHExecutor_execute calmWorld sourceExecutor None
                          (MongoDB ''mongodb://db/app'') initialState)))
     = [Exec 0 ''mongodump''
          [''-o'', ''/tmp/mongodump_2024-01-31T00:00:00.000Z'', ''mongodb://db/app''],
        Exec 0 ''tar''
          [''cvfP'', ''/tmp/backup5772.tar.gz'', ''/tmp/mongodump_2024-01-31T00:00:00.000Z''],
        Exec 0 ''rm'' [''-r'', ''/tmp/mongodump_2024-01-31T00:00:00.000Z'']]"
  by (simp add: io_defs executor_defs world_defs Let_def)

lemma runHook_ops:
  "runHook w ex hook s = (Inr u, s') \<Longrightarrow>
     \<exists>new. trace s' = trace s @ new \<and> map fst new = hookOps ex hook"
  by (auto simp: runHook_def hookOps_def io_defs Let_def split: option.splits Outcome.splits)

lemma buildArchive_ops:
  "buildArchive f w ex pkgFn strat s = (Inr u, s') \<Longrightarrow>
     \<exists>new fn. trace s' = trace s @ new \<and> map fst new = archiveOps f ex pkgFn fn strat"
  by (cases strat)
     (auto simp: buildArchive_def archiveOps_def io_defs Let_def
        split: Outcome.splits if_splits)

lemma executeWith_ops_success:
  assumes "executeWith f w ex hks strat s = (Inr pkgFn, s')"
  shows "\<exists>new fn. trace s' = trace s @ new
           \<and> map fst new = hookOps ex (hookPre hks) @ archiveOps f ex pkgFn fn strat
                              @ hookOps ex (hookPost hks)"
proof -
  obtain r1 s1 where h1: "runHook w ex (hookPre hks) s = (r1, s1)"
    by (cases "runHook w ex (hookPre hks) s")
  obtain r2 s2 where h2: "buildArchive f w ex pkgFn strat s1 = (r2, s2)"
    by (cases "buildArchive f w ex pkgFn strat s1")
  from assms have p: "pkgFn = ''/tmp/backup'' @ drop 2 (mathRandom w (trace s)) @ ''.tar.gz''"
    by (auto simp: executeWith_def bindIO_def thenIO_def tmp_def returnIO_def
        split: prod.splits sum.splits)
  from assms h1 p obtain u1 where r1: "r1 = Inr u1"
    by (cases r1) (auto simp: executeWith_def bindIO_def thenIO_def tmp_def returnIO_def)
  from assms h1 h2 p r1 obtain u2 where r2: "r2 = Inr u2"
    by (cases r2) (auto simp: executeWith_def bindIO_def thenIO_def tmp_def returnIO_def)
  from assms h1 h2 p r1 r2 have h3: "runHook w ex (hookPost hks) s2 = (Inr (), s')"
    by (auto simp: executeWith_def bindIO_def thenIO_def tmp_def returnIO_def
        split: prod.splits sum.splits)
  from runHook_ops [OF h1 [unfolded r1]] obtain n1 where
    n1: "trace s1 = trace s @ n1" "map fst n1 = hookOps ex (hookPre hks)" by blast
  from buildArchive_ops [OF h2 [unfolded r2]] obtain n2 fn where
    n2: "trace s2 = trace s1 @ n2" "map fst n2 = archiveOps f ex pkgFn fn strat" by blast
  from runHook_ops [OF h3] obtain n3 where
    n3: "trace s' = trace s2 @ n3" "map fst n3 = hookOps ex (hookPost hks)" by blast
  from n1 n2 n3 have "trace s' = trace s @ (n1 @ n2 @ n3)
      \<and> map fst (n1 @ n2 @ n3) = hookOps ex (hookPre hks) @ archiveOps f ex pkgFn fn strat
                              @ hookOps ex (hookPost hks)"
    by simp
  then show ?thesis by blast
qed

lemma SSHExecutor_execute_ops:
  assumes "SSHExecutor_execute w ex hks strat s = (Inr pkgFn, s')"
  shows "\<exists>new fn. trace s' = trace s @ new
           \<and> map fst new = hookOps ex (hookPre hks) @ archiveOps ''cvfP'' ex pkgFn fn strat
                              @ hookOps ex (hookPost hks)"
  using assms unfolding SSHExecutor_execute_def by (rule executeWith_ops_success)

lemma executeWith_tar_flags:
  assumes "CHR ''P'' \<in> set f" and "executeWith f w ex hks strat s = (r, s')"
  shows "\<exists>new. trace s' = trace s @ new \<and> (\<forall>e \<in> set new. tarKeepsPaths (fst e))"
proof -
  have t: "triple (grows tarKeepsPaths (trace s)) (executeWith f w ex hks strat)
             (\<lambda>v. grows tarKeepsPaths (trace s)) (grows tarKeepsPaths (trace s))"
    by (rule grows_executeWith) (use assms(1) in auto)
  show ?thesis
  proof (cases r)
    case (Inl e)
    from tripleD_Inl [OF t grows_refl assms(2) [unfolded Inl]] show ?thesis by (simp add: grows_def)
  next
    case (Inr v)
    from tripleD_Inr [OF t grows_refl assms(2) [unfolded Inr]] show ?thesis by (simp add: grows_def)
  qed
qed

section \<open>Executing a plan\<close>

lemma holding_sshOfHost: "triple (holding S) (sshOfHost a b) (\<lambda>v. holding S) numbered"
  by (auto simp: sshOfHost_def intro: triple_return triple_throw holding_numbered
      split: option.splits)

lemma holding_downloadBlock_agent:
  "triple (holding S) (downloadBlock_agent w ex pkgFn bn clone) (\<lambda>v. holding S) numbered"
proof -
  have tail: "triple (holding S)
      (case downloadLocally clone of
         DownloadPath p \<Rightarrow> returnIO ()
       | DownloadFlag b \<Rightarrow>
           thenIO (logIO ''Removing local copy of backup'') (performIO w (LocalRm lf)))
      (\<lambda>v. holding S) numbered" for lf
    by (cases "downloadLocally clone")
       (auto intro!: triple_return inv_then [OF holding_log] holding_perform_any)
  show ?thesis
    unfolding downloadBlock_agent_def Let_def
    by (auto intro!: triple_return inv_then [OF holding_log] inv_then [OF holding_download]
        inv_then [OF triple_forEach] holding_log tail)
qed

lemma holding_execute_agent:
  "triple (holding S) (execute_agent w agentHost plan) (\<lambda>v. holding S) numbered"
proof (cases plan)
  case (PlanSshAgent pid planHost hks strat clone)
  show ?thesis
    unfolding execute_agent_def PlanSshAgent Plan.case Let_def SSHExecutor_execute_helpers_def
    by (intro inv_then [OF holding_log] inv_bind [OF holding_sshOfHost] holding_session_block
        inv_bind [OF holding_executeWith] inv_bind [OF holding_isoNow]
        inv_then [OF triple_forEach] triple_return
        inv_then [OF holding_downloadBlock_agent] inv_then [OF holding_retainBlock]
        triple_then [OF holding_finish] holding_log)
next
  case (PlanSkipped pid)
  then show ?thesis by (simp add: execute_agent_def holding_log)
next
  case (PlanFailed pid)
  then show ?thesis by (simp add: execute_agent_def holding_log)
qed

text \<open>
  Whatever way \<^verbatim>\<open>execute\<close> ends, the open sessions are numbered; when it returns
  normally, they are the sessions that were open before.
\<close>

lemma numbered_holding: "numbered s \<Longrightarrow> holding (openSessions (trace s)) s"
  by (simp add: holding_def numbered_def)

lemma triple_run:
  assumes t: "\<And>S. triple (holding S) m (\<lambda>v. holding S) numbered" and n: "numbered s"
  shows "(fst (m s) = Inr v \<longrightarrow> openSessions (trace (snd (m s))) = openSessions (trace s))
       \<and> numbered (snd (m s))"
proof -
  obtain r s' where x: "m s = (r, s')" by (cases "m s")
  note h = numbered_holding [OF n]
  show ?thesis
  proof (cases r)
    case (Inl err)
    from tripleD_Inl [OF t h x [unfolded Inl]] x Inl show ?thesis by simp
  next
    case (Inr u)
    from tripleD_Inr [OF t h x [unfolded Inr]] have k: "holding (openSessions (trace s)) s'" .
    then have "openSessions (trace s') = openSessions (trace s)" by (simp add: holding_def)
    with holding_numbered [OF k] x Inr show ?thesis by simp
  qed
qed

lemma coordinate_closes_sessions:
  assumes t: "\<And>S. triple (holding S) (exec plan) (\<lambda>v. holding S) numbered"
    and n: "numbered s"
  shows "(run_error (last (run_log (coordinate exec plan s))) = None
            \<longrightarrow> openSessions (trace (coordinate exec plan s)) = openSessions (trace s))
       \<and> numbered (coordinate exec plan s)"
proof -
  let ?s0 = "s\<lparr>logLines := []\<rparr>"
  obtain r s' where x: "exec plan ?s0 = (r, s')" by (cases "exec plan ?s0")
  from n have n0: "numbered ?s0" by (simp add: numbered_def)
  from triple_run [where m = "exec plan", OF t n0, of "()"] x
  have k: "r = Inr () \<longrightarrow> openSessions (trace s') = openSessions (trace s)" "numbered s'"
    by simp_all
  have e: "run_error (last (run_log (coordinate exec plan s))) = None \<longleftrightarrow> r = Inr ()"
    using x by (cases r) (simp_all add: coordinate_def)
  have c: "trace (coordinate exec plan s) = trace s'"
    "nextSession (coordinate exec plan s) = nextSession s'"
    using x by (simp_all add: coordinate_def)
  from k e show ?thesis by (simp add: c numbered_def)
qed

text \<open>
  C4. The claim: every session opened with \<^verbatim>\<open>ready()\<close> is closed with
  \<^verbatim>\<open>finish()\<close> on every exit path, also when an execution error is caught by the
  coordinator. \<^verbatim>\<open>execute\<close> has no \<^verbatim>\<open>finally\<close>: when \<^verbatim>\<open>tar\<close> fails,
  \<^verbatim>\<open>execute\<close> of \<^verbatim>\<open>src/src/executor.ts\<close> throws with the session to the source
  host still open, and so does \<^verbatim>\<open>execute\<close> of \<^verbatim>\<open>src/unnamed/part_002\<close>, whose
  error the coordinator catches and records.
\<close>

theorem execute_leaks_session_on_failure:
  "openSessions (trace initialState) = []
   \<and> fst (execute tarFails fanoutHosts ''A'' fanoutPlan initialState)
       = Inl ''Error: tar: /etc: Cannot open''
   \<and> openSessions (trace (snd (execute tarFails fanoutHosts ''A'' fanoutPlan initialState))) = [0]
   \<and> run_error (last (run_log (runPlan_agent tarFails fanoutHosts ''A'' fanoutPlan initialState)))
       = Some ''Error: tar: /etc: Cannot open''
   \<and> openSessions (trace (runPlan_agent tarFails fanoutHosts ''A'' fanoutPlan initialState)) = [0]"
  by (simp add: io_defs executor_defs world_defs Let_def openSessions_def)

text \<open>
  C4, as amended. When \<^verbatim>\<open>execute\<close> returns normally (the coordinator records no
  error), every session it opened has been closed: the sessions open afterwards are
  those that were open before, whatever they are. The state before need only have its
  open sessions numbered, and every way \<^verbatim>\<open>execute\<close> can end, also a throw, leaves
  such a state, so this covers every plan of a run, also one that follows a failed plan.
  It holds for both revisions of \<^verbatim>\<open>execute\<close> and for the coordinator's loop body.
\<close>

theorem execute_closes_sessions_on_success:
  assumes "numbered s"
  shows "(fst (execute w hosts agentId plan s) = Inr ()
            \<longrightarrow> openSessions (trace (snd (execute w hosts agentId plan s)))
                  = openSessions (trace s))
       \<and> (fst (execute_agent w agentHost plan s) = Inr ()
            \<longrightarrow> openSessions (trace (snd (execute_agent w agentHost plan s)))
                  = openSessions (trace s))
       \<and> (run_error (last (run_log (runPlan_agent w hosts agentId plan s))) = None
            \<longrightarrow> openSessions (trace (runPlan_agent w hosts agentId plan s))
                  = openSessions (trace s))
       \<and> numbered (snd (execute w hosts agentId plan s))
       \<and> numbered (snd (execute_agent w agentHost plan s))
       \<and> numbered (runPlan_agent w hosts agentId plan s)"
  using triple_run [where m = "execute w hosts agentId plan", OF holding_execute assms, of "()"]
    triple_run [where m = "execute_agent w agentHost plan", OF holding_execute_agent assms, of "()"]
    coordinate_closes_sessions [where exec = "execute_agent w (hosts agentId)",
      OF holding_execute_agent assms]
  unfolding runPlan_agent_def by blast

lemma failed_run_state:
  "snd (execute tarFails fanoutHosts ''A'' fanoutPlan initialState)
     = \<lparr> trace = [(Connect 0 (Some (sshTo ''b.example'')), Resolves okResponse),
                  (Exec 0 ''tar'' [''czvfP'', ''/tmp/backup5772.tar.gz'', ''/etc''],
                   Rejects ''Error: tar: /etc: Cannot open'')],
         nextSession = 1,
         logLines = [''Preparing to run plan for etc'', ''Executor ready, running the strategy''],
         run_log = [] \<rparr>"
  by (simp add: io_defs executor_defs world_defs Let_def)

lemma calm_after_failure:
  "fst (execute calmWorld fanoutHosts ''A'' fanoutPlan
          (snd (execute tarFails fanoutHosts ''A'' fanoutPlan initialState))) = Inr ()"
  "fst (execute_agent calmWorld (fanoutHosts ''A'') fanoutPlan
          (snd (execute tarFails fanoutHosts ''A'' fanoutPlan initialState))) = Inr ()"
  "run_error (last (run_log (runPlan_agent calmWorld fanoutHosts ''A'' fanoutPlan
          (snd (execute tarFails fanoutHosts ''A'' fanoutPlan initialState))))) = None"
  unfolding failed_run_state
  by (simp_all add: io_defs executor_defs world_defs Let_def)

theorem execute_closes_sessions_on_success_witness:
  "numbered (snd (execute tarFails fanoutHosts ''A'' fanoutPlan initialState))
   \<and> openSessions (trace (snd (execute tarFails fanoutHosts ''A'' fanoutPlan initialState))) = [0]
   \<and> fst (execute calmWorld fanoutHosts ''A'' fanoutPlan
            (snd (execute tarFails fanoutHosts ''A'' fanoutPlan initialState))) = Inr ()
   \<and> openSessions (trace (snd (execute calmWorld fanoutHosts ''A'' fanoutPlan
            (snd (execute tarFails fanoutHosts ''A'' fanoutPlan initialState))))) = [0]
   \<and> fst (execute_agent calmWorld (fanoutHosts ''A'') fanoutPlan
            (snd (execute tarFails fanoutHosts ''A'' fanoutPlan initialState))) = Inr ()
   \<and> openSessions (trace (snd (execute_agent calmWorld (fanoutHosts ''A'') fanoutPlan
            (snd (execute tarFails fanoutHosts ''A'' fanoutPlan initialState))))) = [0]
   \<and> run_error (last (run_log (runPlan_agent calmWorld fanoutHosts ''A'' fanoutPlan
            (snd (execute tarFails fanoutHosts ''A'' fanoutPlan initialState))))) = None
   \<and> openSessions (trace (runPlan_agent calmWorld fanoutHosts ''A'' fanoutPlan
            (snd (execute tarFails fanoutHosts ''A'' fanoutPlan initialState)))) = [0]"
proof -
  let ?s = "snd (execute tarFails fanoutHosts ''A'' fanoutPlan initialState)"
  have o: "openSessions (trace ?s) = [0]"
    unfolding failed_run_state by (simp add: openSessions_def)
  have n: "numbered ?s"
    unfolding numbered_def o unfolding failed_run_state by simp
  from execute_closes_sessions_on_success [OF n, of calmWorld fanoutHosts "''A''" fanoutPlan
      "fanoutHosts ''A''"] calm_after_failure n o
  show ?thesis by simp
qed

lemma keeps_perform:
  "notLocalRm op \<Longrightarrow> triple (grows notLocalRm T) (performIO w op) (\<lambda>v. grows notLocalRm T) (grows notLocalRm T)"
  by (rule grows_perform)

lemma keeps_uploadDirectly:
  "triple (grows notLocalRm T) (uploadDirectly w hosts ex h pkgFn bn d) (\<lambda>v. grows notLocalRm T) (grows notLocalRm T)"
  unfolding uploadDirectly_def
  by (intro inv_then [OF grows_log] inv_bind [OF grows_sshOf] grows_scpUpload) simp

lemma keeps_receiveOn:
  "triple (grows notLocalRm T) (receiveOn w hosts agentId h pkgFn bn d) (\<lambda>v. grows notLocalRm T) (grows notLocalRm T)"
  unfolding receiveOn_def
  by (intro inv_then [OF grows_log] inv_bind [OF grows_sshOf] inv_bind [OF grows_create]
      inv_then [OF grows_ready] inv_then [OF grows_scpDownload] grows_finish) simp_all

lemma keeps_redirectTo:
  "triple (grows notLocalRm T) (redirectTo w hosts agentId lf bn d) (\<lambda>v. grows notLocalRm T) (grows notLocalRm T)"
  unfolding redirectTo_def SSHExecutor_upload_def
  by (intro inv_then [OF grows_log] inv_bind [OF grows_sshOf] inv_bind [OF grows_create]
      inv_then [OF grows_ready] inv_then [OF keeps_perform] grows_finish) simp_all

lemma keeps_downloadBlock:
  assumes "downloadLocally clone \<noteq> DownloadFlag True"
  shows "triple (grows notLocalRm T) (downloadBlock w hosts agentId ex pkgFn bn clone) (\<lambda>v. grows notLocalRm T) (grows notLocalRm T)"
proof (cases "downloadLocally clone")
  case (DownloadPath p)
  show ?thesis
    unfolding downloadBlock_def Let_def SSHExecutor_download_def DownloadPath
      download_truthy.simps if_True Download.case
    by (intro inv_then [OF grows_log] inv_then [OF keeps_perform] inv_then [OF triple_forEach]
        keeps_redirectTo triple_return) simp_all
next
  case (DownloadFlag b)
  with assms have "\<not> b" by simp
  then show ?thesis
    unfolding downloadBlock_def DownloadFlag download_truthy.simps
    by (simp add: triple_return)
qed

lemma keeps_retainBlock:
  "triple (grows notLocalRm T) (retainBlock w ex pkgFn bn clone) (\<lambda>v. grows notLocalRm T) (grows notLocalRm T)"
  unfolding retainBlock_def SSHExecutor_move_def SSHExecutor_delete_def
  by (cases "retainOnHost clone") (auto intro!: inv_then [OF grows_log] keeps_perform)

lemma keeps_execute_ssh:
  assumes "downloadLocally clone \<noteq> DownloadFlag True"
  shows "triple (grows notLocalRm T) (execute w hosts agentId (PlanSshAgent pid h hks strat clone))
           (\<lambda>v. grows notLocalRm T) (grows notLocalRm T)"
  unfolding execute_def Plan.case Let_def SSHExecutor_execute_def
  by (intro inv_then [OF grows_log] inv_bind [OF grows_sshOf] inv_bind [OF grows_create]
      inv_then [OF grows_ready] inv_bind [OF grows_executeWith] inv_bind [OF grows_isoNow]
      inv_then [OF triple_forEach] keeps_uploadDirectly keeps_receiveOn
      inv_then [OF keeps_downloadBlock] inv_then [OF keeps_retainBlock]
      inv_then [OF grows_finish] grows_log assms) simp_all

lemma any_tail:
  "triple (grows (\<lambda>op. True) T)
     (thenIO (forEachIO (redirectTo w hosts agentId lf bn) ds)
        (case dl of
           DownloadPath p \<Rightarrow> returnIO ()
         | DownloadFlag b \<Rightarrow>
             thenIO (logIO ''Removing local copy of backup'') (performIO w (LocalRm lf))))
     (\<lambda>v. grows (\<lambda>op. True) T) (grows (\<lambda>op. True) T)"
proof -
  have r: "triple (grows (\<lambda>op. True) T) (redirectTo w hosts agentId lf bn d)
             (\<lambda>v. grows (\<lambda>op. True) T) (grows (\<lambda>op. True) T)" for d
    unfolding redirectTo_def SSHExecutor_upload_def
    by (intro inv_then [OF grows_log] inv_bind [OF grows_sshOf] inv_bind [OF grows_create]
        inv_then [OF grows_ready] inv_then [OF grows_perform] grows_finish) simp_all
  show ?thesis
    by (cases dl)
       (auto intro!: inv_then [OF triple_forEach] r inv_then [OF grows_log] grows_perform
          triple_return)
qed

lemma downloadBlock_first:
  assumes "download_truthy (downloadLocally clone)"
    and "downloadBlock w hosts agentId ex pkgFn bn clone s = (r, s')"
  shows "\<exists>out rest. trace s' = trace s
           @ (GetFile (session ex) (resolve w (''./backups/'' @ bn)) pkgFn, out) # rest"
proof -
  define lf where "lf = resolve w (''./backups/'' @ bn)"
  let ?op = "GetFile (session ex) lf pkgFn"
  let ?s1 = "s\<lparr>logLines := logLines s @ [''Downloading the backup to the agent''],
               trace := trace s @ [(?op, respond w (trace s) ?op)]\<rparr>"
  let ?tail = "thenIO (forEachIO (redirectTo w hosts agentId lf bn) (redirectCloneTo clone))
        (case downloadLocally clone of
           DownloadPath p \<Rightarrow> returnIO ()
         | DownloadFlag b \<Rightarrow>
             thenIO (logIO ''Removing local copy of backup'') (performIO w (LocalRm lf)))"
  from assms(2) have run: "thenIO (logIO ''Downloading the backup to the agent'')
      (thenIO (performIO w ?op) ?tail) s = (r, s')"
    unfolding downloadBlock_def Let_def SSHExecutor_download_def if_P [OF assms(1)] lf_def .
  have "\<exists>out rest. trace s' = trace s @ (?op, out) # rest"
  proof (cases "respond w (trace s) ?op")
    case (Rejects err)
    with run have "s' = ?s1"
      by (auto simp: io_defs Let_def)
    then show ?thesis by simp
  next
    case (Resolves resp)
    with run have t: "?tail ?s1 = (r, s')"
      by (auto simp: io_defs Let_def)
    from growsD [OF any_tail t] show ?thesis by auto
  qed
  then show ?thesis by (simp add: lf_def)
qed

lemma execute_path_unread:
  "execute w hosts agentId (PlanSshAgent pid h hks strat (clone\<lparr>downloadLocally := DownloadPath p\<rparr>))
     = execute w hosts agentId (PlanSshAgent pid h hks strat (clone\<lparr>downloadLocally := DownloadPath q\<rparr>))"
  by (simp add: execute_def downloadBlock_def retainBlock_def)

lemma downloadBlock_keeps:
  assumes "downloadLocally clone = DownloadPath p"
    and "downloadBlock w hosts agentId ex pkgFn bn clone s = (r, s')"
  shows "\<exists>out rest. trace s' = trace s
            @ (GetFile (session ex) (resolve w (''./backups/'' @ bn)) pkgFn, out) # rest
          \<and> (\<forall>e \<in> set rest. notLocalRm (fst e))"
proof -
  from assms(1) have t: "download_truthy (downloadLocally clone)"
    and n: "downloadLocally clone \<noteq> DownloadFlag True" by simp_all
  from downloadBlock_first [OF t assms(2)] obtain out rest where
    f: "trace s' = trace s
          @ (GetFile (session ex) (resolve w (''./backups/'' @ bn)) pkgFn, out) # rest"
    by blast
  from growsD [OF keeps_downloadBlock [OF n] assms(2)] obtain new where
    "trace s' = trace s @ new" "\<forall>e \<in> set new. notLocalRm (fst e)" by blast
  with f have "\<forall>e \<in> set rest. notLocalRm (fst e)" by auto
  with f show ?thesis by blast
qed

lemma execute_rm_only_when_true:
  assumes "execute w hosts agentId (PlanSshAgent pid h hks strat clone) s = (r, s')"
    and "(LocalRm f, out) \<in> set (trace s')" and "(LocalRm f, out) \<notin> set (trace s)"
  shows "downloadLocally clone = DownloadFlag True"
proof (rule ccontr)
  assume n: "downloadLocally clone \<noteq> DownloadFlag True"
  from growsD [OF keeps_execute_ssh [OF n] assms(1)] obtain new where
    "trace s' = trace s @ new" "\<forall>e \<in> set new. notLocalRm (fst e)" by blast
  with assms(2,3) show False by auto
qed

lemma keeps_downloadBlock_agent:
  assumes "downloadLocally clone \<noteq> DownloadFlag True"
  shows "triple (grows notLocalRm T) (downloadBlock_agent w ex pkgFn bn clone)
           (\<lambda>v. grows notLocalRm T) (grows notLocalRm T)"
proof (cases "downloadLocally clone")
  case (DownloadPath p)
  show ?thesis
    unfolding downloadBlock_agent_def Let_def SSHExecutor_download_def DownloadPath
      download_truthy.simps if_True Download.case
    by (intro inv_then [OF grows_log] inv_then [OF keeps_perform] inv_then [OF triple_forEach]
        grows_log triple_return) simp_all
next
  case (DownloadFlag b)
  with assms have "\<not> b" by simp
  then show ?thesis
    unfolding downloadBlock_agent_def DownloadFlag download_truthy.simps
    by (simp add: triple_return)
qed

lemma keeps_execute_agent:
  assumes "downloadLocally clone \<noteq> DownloadFlag True"
  shows "triple (grows notLocalRm T) (execute_agent w agentHost (PlanSshAgent pid h hks strat clone))
           (\<lambda>v. grows notLocalRm T) (grows notLocalRm T)"
proof -
  have a: "triple (grows notLocalRm T) (sshOfHost agentHost b)
             (\<lambda>v. grows notLocalRm T) (grows notLocalRm T)" for b
    by (auto simp: sshOfHost_def intro: triple_return triple_throw split: option.splits)
  show ?thesis
    unfolding execute_agent_def Plan.case Let_def SSHExecutor_execute_helpers_def
    by (intro inv_then [OF grows_log] inv_bind [OF a] inv_bind [OF grows_create]
        inv_then [OF grows_ready] inv_bind [OF grows_executeWith] inv_bind [OF grows_isoNow]
        inv_then [OF triple_forEach] triple_return
        inv_then [OF keeps_downloadBlock_agent] inv_then [OF keeps_retainBlock]
        inv_then [OF grows_finish] grows_log assms) simp_all
qed

text \<open>The same two facts for the revision that takes the agent's host.\<close>

lemma execute_agent_path_unread:
  "execute_agent w a (PlanSshAgent pid h hks strat (clone\<lparr>downloadLocally := DownloadPath p\<rparr>))
     = execute_agent w a (PlanSshAgent pid h hks strat (clone\<lparr>downloadLocally := DownloadPath q\<rparr>))"
  by (simp add: execute_agent_def downloadBlock_agent_def retainBlock_def)

lemma execute_agent_rm_only_when_true:
  assumes "execute_agent w a (PlanSshAgent pid h hks strat clone) s = (r, s')"
    and "(LocalRm f, out) \<in> set (trace s')" and "(LocalRm f, out) \<notin> set (trace s)"
  shows "downloadLocally clone = DownloadFlag True"
proof (rule ccontr)
  assume n: "downloadLocally clone \<noteq> DownloadFlag True"
  from growsD [OF keeps_execute_agent [OF n] assms(1)] obtain new where
    "trace s' = trace s @ new" "\<forall>e \<in> set new. notLocalRm (fst e)" by blast
  with assms(2,3) show False by auto
qed

subsection \<open>What \<^verbatim>\<open>execute\<close> writes on the agent\<close>

lemma remote_notLocalRm: "\<not> localWrite op \<Longrightarrow> notLocalRm op"
  by (cases op) simp_all

lemma remote_uploadDirectly:
  assumes r: "\<And>op. \<not> localWrite op \<Longrightarrow> \<phi> op"
  shows "triple (grows \<phi> T) (uploadDirectly w hosts ex h pkgFn bn d) (\<lambda>v. grows \<phi> T) (grows \<phi> T)"
  unfolding uploadDirectly_def
  by (intro inv_then [OF grows_log] inv_bind [OF grows_sshOf] grows_scpUpload) (simp add: r)

lemma remote_receiveOn:
  assumes r: "\<And>op. \<not> localWrite op \<Longrightarrow> \<phi> op"
  shows "triple (grows \<phi> T) (receiveOn w hosts agentId h pkgFn bn d) (\<lambda>v. grows \<phi> T) (grows \<phi> T)"
  unfolding receiveOn_def
  by (intro inv_then [OF grows_log] inv_bind [OF grows_sshOf] inv_bind [OF grows_create]
      inv_then [OF grows_ready] inv_then [OF grows_scpDownload] grows_finish) (simp_all add: r)

lemma remote_redirectTo:
  assumes r: "\<And>op. \<not> localWrite op \<Longrightarrow> \<phi> op"
  shows "triple (grows \<phi> T) (redirectTo w hosts agentId lf bn d) (\<lambda>v. grows \<phi> T) (grows \<phi> T)"
  unfolding redirectTo_def SSHExecutor_upload_def
  by (intro inv_then [OF grows_log] inv_bind [OF grows_sshOf] inv_bind [OF grows_create]
      inv_then [OF grows_ready] inv_then [OF grows_perform] grows_finish) (simp_all add: r)

lemma remote_retainBlock:
  assumes r: "\<And>op. \<not> localWrite op \<Longrightarrow> \<phi> op"
  shows "triple (grows \<phi> T) (retainBlock w ex pkgFn bn clone) (\<lambda>v. grows \<phi> T) (grows \<phi> T)"
  unfolding retainBlock_def SSHExecutor_move_def SSHExecutor_delete_def
  by (cases "retainOnHost clone") (auto intro!: inv_then [OF grows_log] grows_perform r)

lemma remote_executeWith:
  assumes r: "\<And>op. \<not> localWrite op \<Longrightarrow> \<phi> op"
  shows "triple (grows \<phi> T) (executeWith f w ex hks strat) (\<lambda>v. grows \<phi> T) (grows \<phi> T)"
  by (rule grows_executeWith) (simp_all add: r)

text \<open>An operation that extends the trace by remote operations only writes nothing.\<close>

lemma localWrites_append: "localWrites (tr @ new) = localWrites tr @ localWrites new"
  by (simp add: localWrites_def)

lemma localWrites_remote: "\<forall>e \<in> set new. \<not> localWrite (fst e) \<Longrightarrow> localWrites new = []"
  by (induction new) (auto simp: localWrites_def)

lemma still:
  assumes t: "\<And>T. triple (grows (\<lambda>op. \<not> localWrite op) T) m
                (\<lambda>v. grows (\<lambda>op. \<not> localWrite op) T) (grows (\<lambda>op. \<not> localWrite op) T)"
  shows "triple (wrote X) m (\<lambda>v. wrote X) (\<lambda>s. True)"
proof (rule tripleI)
  fix s v s' assume w: "wrote X s" and m: "m s = (Inr v, s')"
  from growsD [OF t m] obtain new where
    "trace s' = trace s @ new" "\<forall>e \<in> set new. \<not> localWrite (fst e)" by blast
  with w show "wrote X s'"
    by (simp add: wrote_def localWrites_append localWrites_remote)
qed simp

lemma still_log: "triple (wrote X) (logIO line) (\<lambda>v. wrote X) (\<lambda>s. True)"
  by (rule still) (rule grows_log)

lemma still_sshOf: "triple (wrote X) (sshOf hosts a b) (\<lambda>v. wrote X) (\<lambda>s. True)"
  by (rule still) (rule grows_sshOf)

lemma still_create: "triple (wrote X) (createSSHExecutor c) (\<lambda>v. wrote X) (\<lambda>s. True)"
  by (rule still) (rule grows_create)

lemma still_ready: "triple (wrote X) (ready w ex) (\<lambda>v. wrote X) (\<lambda>s. True)"
  by (rule still) (rule grows_ready, simp)

lemma still_finish: "triple (wrote X) (finish ex) (\<lambda>v. wrote X) (\<lambda>s. True)"
  by (rule still) (rule grows_finish, simp)

lemma still_isoNow: "triple (wrote X) (isoNow w) (\<lambda>v. wrote X) (\<lambda>s. True)"
  by (rule still) (rule grows_isoNow)

lemma still_executeWith: "triple (wrote X) (executeWith f w ex hks strat) (\<lambda>v. wrote X) (\<lambda>s. True)"
  by (rule still) (rule remote_executeWith, simp)

lemma still_uploadDirectly:
  "triple (wrote X) (uploadDirectly w hosts ex h pkgFn bn d) (\<lambda>v. wrote X) (\<lambda>s. True)"
  by (rule still) (rule remote_uploadDirectly, simp)

lemma still_receiveOn:
  "triple (wrote X) (receiveOn w hosts agentId h pkgFn bn d) (\<lambda>v. wrote X) (\<lambda>s. True)"
  by (rule still) (rule remote_receiveOn, simp)

lemma still_redirectTo:
  "triple (wrote X) (redirectTo w hosts agentId lf bn d) (\<lambda>v. wrote X) (\<lambda>s. True)"
  by (rule still) (rule remote_redirectTo, simp)

lemma still_retainBlock:
  "triple (wrote X) (retainBlock w ex pkgFn bn clone) (\<lambda>v. wrote X) (\<lambda>s. True)"
  by (rule still) (rule remote_retainBlock, simp)

lemma wrote_perform:
  "triple (wrote X) (performIO w op) (\<lambda>v. wrote (X @ filter localWrite [op])) (\<lambda>s. True)"
  by (auto simp: triple_def performIO_def perform_def bindIO_def returnIO_def Let_def wrote_def
      localWrites_def split: Outcome.splits)

lemma wrote_download:
  "triple (wrote X) (SSHExecutor_download w ex pkgFn lf)
     (\<lambda>v. wrote (X @ [GetFile (session ex) lf pkgFn])) (\<lambda>s. True)"
  unfolding SSHExecutor_download_def
  using wrote_perform [of X w "GetFile (session ex) lf pkgFn"] by simp

lemma wrote_rm:
  "triple (wrote X) (performIO w (LocalRm lf)) (\<lambda>v. wrote (X @ [LocalRm lf])) (\<lambda>s. True)"
  using wrote_perform [of X w "LocalRm lf"] by simp

lemma wrote_downloadBlock:
  "triple (wrote X) (downloadBlock w hosts agentId ex pkgFn bn clone)
     (\<lambda>v. wrote (X @ downloadWrites w (session ex) pkgFn bn (downloadLocally clone)))
     (\<lambda>s. True)"
proof -
  define lf where "lf = resolve w (''./backups/'' @ bn)"
  let ?G = "GetFile (session ex) lf pkgFn"
  show ?thesis
  proof (cases "downloadLocally clone")
    case (DownloadPath p)
    have q: "downloadWrites w (session ex) pkgFn bn (DownloadPath p) = [?G]"
      by (simp add: downloadWrites_def lf_def)
    show ?thesis
      unfolding downloadBlock_def Let_def DownloadPath download_truthy.simps if_True
        Download.case q lf_def [symmetric]
      by (intro inv_then [OF still_log] triple_then [OF wrote_download]
          inv_then [OF triple_forEach] still_redirectTo triple_return)
  next
    case (DownloadFlag b)
    show ?thesis
    proof (cases b)
      case True
      then have bt: "b = True" by simp
      have q: "downloadWrites w (session ex) pkgFn bn (DownloadFlag True) = [?G] @ [LocalRm lf]"
        by (simp add: downloadWrites_def lf_def)
      show ?thesis
        unfolding downloadBlock_def Let_def DownloadFlag bt download_truthy.simps if_True
          Download.case q lf_def [symmetric] append_assoc [symmetric]
        by (intro inv_then [OF still_log] triple_then [OF wrote_download]
            inv_then [OF triple_forEach] still_redirectTo wrote_rm)
    next
      case False
      then have bf: "b = False" by simp
      have q: "downloadWrites w (session ex) pkgFn bn (DownloadFlag False) = []"
        by (simp add: downloadWrites_def)
      show ?thesis
        unfolding downloadBlock_def DownloadFlag bf download_truthy.simps if_False q
        by (rule triple_return) simp
    qed
  qed
qed

text \<open>
  The executor that \<^verbatim>\<open>execute\<close> creates first gets the next session number.
\<close>

lemma wrote_session_block:
  assumes rest: "\<And>ex. session ex = n \<Longrightarrow> triple (wrote X) (rest ex) Q (\<lambda>s. True)"
  shows "triple (\<lambda>s. wrote X s \<and> nextSession s = n)
           (bindIO (createSSHExecutor c) (\<lambda>ex. rest ex)) Q (\<lambda>s. True)"
proof (rule triple_bind)
  show "triple (\<lambda>s. wrote X s \<and> nextSession s = n) (createSSHExecutor c)
          (\<lambda>ex s. wrote X s \<and> session ex = n) (\<lambda>s. True)"
    by (auto simp: triple_def createSSHExecutor_def wrote_def)
next
  fix ex
  show "triple (\<lambda>s. wrote X s \<and> session ex = n) (rest ex) Q (\<lambda>s. True)"
  proof (cases "session ex = n")
    case True
    from rest [OF True] show ?thesis by (rule triple_weaken) simp_all
  next
    case False
    then show ?thesis by (simp add: triple_def)
  qed
qed

lemma wrote_execute:
  "triple (\<lambda>s. wrote X s \<and> nextSession s = n)
     (execute w hosts agentId (PlanSshAgent pid h hks strat clone))
     (\<lambda>v s'. \<exists>pkgFn stamp.
        wrote (X @ downloadWrites w n pkgFn (backupNameOf pid stamp) (downloadLocally clone)) s')
     (\<lambda>s. True)"
proof -
  have log0: "triple (\<lambda>s. wrote X s \<and> nextSession s = n) (logIO line)
                (\<lambda>v s. wrote X s \<and> nextSession s = n) (\<lambda>s. True)" for line
    by (rule triple_log) (simp add: wrote_def)
  have ssh0: "triple (\<lambda>s. wrote X s \<and> nextSession s = n) (sshOf hosts a b)
                (\<lambda>v s. wrote X s \<and> nextSession s = n) (\<lambda>s. True)" for a b
    by (auto simp: sshOf_def intro: triple_return triple_throw split: option.splits)
  have last: "session ex = n \<Longrightarrow>
      triple (wrote (X @ downloadWrites w (session ex) pkgFn (backupNameOf pid stamp)
                          (downloadLocally clone)))
        (logIO ''Plan complete'')
        (\<lambda>v s'. \<exists>pkgFn stamp.
          wrote (X @ downloadWrites w n pkgFn (backupNameOf pid stamp) (downloadLocally clone)) s')
        (\<lambda>s. True)" for ex pkgFn stamp
    by (rule triple_log) (auto simp: wrote_def)
  show ?thesis
    unfolding execute_def Plan.case Let_def SSHExecutor_execute_def
    by (intro inv_then [OF log0] inv_bind [OF ssh0] wrote_session_block
        inv_then [OF still_ready] inv_then [OF still_log]
        inv_bind [OF still_executeWith] inv_bind [OF still_isoNow]
        inv_then [OF triple_forEach] still_uploadDirectly still_receiveOn
        triple_then [OF wrote_downloadBlock] inv_then [OF still_retainBlock]
        inv_then [OF still_finish] last)
qed

text \<open>
  What a normal return of \<^verbatim>\<open>execute\<close> has written on the agent: what the
  \<^verbatim>\<open>if (downloadLocally)\<close> block is to write, over the session of the executor
  created first, under the name made of the plan's id and a time stamp.
\<close>

lemma execute_local_writes:
  assumes "execute w hosts agentId (PlanSshAgent pid h hks strat clone) s = (Inr u, s')"
  shows "\<exists>pkgFn stamp. localWrites (trace s')
     = localWrites (trace s)
         @ downloadWrites w (nextSession s) pkgFn (backupNameOf pid stamp) (downloadLocally clone)"
proof -
  have "wrote (localWrites (trace s)) s \<and> nextSession s = nextSession s" by (simp add: wrote_def)
  from tripleD_Inr [OF wrote_execute this assms] show ?thesis by (simp add: wrote_def)
qed

text \<open>
  C10. With \<^verbatim>\<open>downloadLocally = { path }\<close>: the behaviour of \<^verbatim>\<open>execute\<close> is the
  same for every value of \<^verbatim>\<open>path\<close>; an \<^verbatim>\<open>execute\<close> that returns normally has
  changed the agent's file system in one way only, by downloading a file, over the
  session it opened first (the one to the source host), to
  \<^verbatim>\<open>resolve("./backups/" + backupName)\<close>, where \<^verbatim>\<open>backupName\<close> is made of the
  plan's id and the time of the run; the \<^verbatim>\<open>if (downloadLocally)\<close> block, however it
  ends, first downloads the archive there over the executor's session and then performs
  no local \<^verbatim>\<open>rm\<close>. For any plan, and however \<^verbatim>\<open>execute\<close> ends, it performs a
  local \<^verbatim>\<open>rm\<close> only if \<^verbatim>\<open>downloadLocally\<close> is \<^verbatim>\<open>true\<close>.
\<close>

theorem execute_keeps_local_copy:
  "execute w hosts agentId (PlanSshAgent pid h hks strat (clone\<lparr>downloadLocally := DownloadPath p\<rparr>))
     = execute w hosts agentId (PlanSshAgent pid h hks strat (clone\<lparr>downloadLocally := DownloadPath q\<rparr>))
   \<and> (downloadLocally clone = DownloadPath p
        \<and> execute w hosts agentId (PlanSshAgent pid h hks strat clone) s = (Inr u, s2)
       \<longrightarrow> (\<exists>remoteFile stamp.
              localWrites (trace s2)
                = localWrites (trace s)
                    @ [GetFile (nextSession s)
                         (resolve w (''./backups/'' @ backupNameOf pid stamp)) remoteFile]))
   \<and> (downloadBlock w hosts agentId ex pkgFn bn (clone\<lparr>downloadLocally := DownloadPath p\<rparr>) s
         = (r, s')
       \<longrightarrow> (\<exists>out rest. trace s' = trace s
                @ (GetFile (session ex) (resolve w (''./backups/'' @ bn)) pkgFn, out) # rest
              \<and> (\<forall>e \<in> set rest. notLocalRm (fst e))))
   \<and> (execute w hosts agentId (PlanSshAgent pid h hks strat clone) s = (r2, s2)
       \<and> (LocalRm f, out2) \<in> set (trace s2) \<and> (LocalRm f, out2) \<notin> set (trace s)
       \<longrightarrow> downloadLocally clone = DownloadFlag True)"
proof -
  have a: "downloadLocally clone = DownloadPath p
        \<and> execute w hosts agentId (PlanSshAgent pid h hks strat clone) s = (Inr u, s2)
       \<longrightarrow> (\<exists>remoteFile stamp.
              localWrites (trace s2)
                = localWrites (trace s)
                    @ [GetFile (nextSession s)
                         (resolve w (''./backups/'' @ backupNameOf pid stamp)) remoteFile])"
  proof (intro impI, elim conjE)
    assume d: "downloadLocally clone = DownloadPath p"
      and x: "execute w hosts agentId (PlanSshAgent pid h hks strat clone) s = (Inr u, s2)"
    from execute_local_writes [OF x] show "\<exists>remoteFile stamp.
              localWrites (trace s2)
                = localWrites (trace s)
                    @ [GetFile (nextSession s)
                         (resolve w (''./backups/'' @ backupNameOf pid stamp)) remoteFile]"
      unfolding d downloadWrites_def Download.case .
  qed
  have b: "downloadBlock w hosts agentId ex pkgFn bn (clone\<lparr>downloadLocally := DownloadPath p\<rparr>) s
         = (r, s')
       \<longrightarrow> (\<exists>out rest. trace s' = trace s
                @ (GetFile (session ex) (resolve w (''./backups/'' @ bn)) pkgFn, out) # rest
              \<and> (\<forall>e \<in> set rest. notLocalRm (fst e)))"
    using downloadBlock_keeps [of "clone\<lparr>downloadLocally := DownloadPath p\<rparr>" p] by simp
  have c: "execute w hosts agentId (PlanSshAgent pid h hks strat clone) s = (r2, s2)
       \<and> (LocalRm f, out2) \<in> set (trace s2) \<and> (LocalRm f, out2) \<notin> set (trace s)
       \<longrightarrow> downloadLocally clone = DownloadFlag True"
    using execute_rm_only_when_true by blast
  from execute_path_unread a b c show ?thesis by blast
qed

text \<open>
  The plan of the catalog with one destination of each kind has
  \<^verbatim>\<open>downloadLocally = { path: "/local/" }\<close>: its execution downloads the archive to
  \<^verbatim>\<open>/srv/agent/backups/\<close> and removes nothing. The plan with \<^verbatim>\<open>downloadLocally\<close>
  \<^verbatim>\<open>true\<close> downloads to the same place and removes the file after the upload.
\<close>

lemma fanout_run:
  "fst (execute calmWorld fanoutHosts ''A'' fanoutPlan initialState) = Inr ()"
  "localWrites (trace (snd (execute calmWorld fanoutHosts ''A'' fanoutPlan initialState)))
     = [GetFile 0 ''/srv/agent/backups/etc_2024-01-31T00:00:00.000Z.tar.gz''
          ''/tmp/backup5772.tar.gz'']"
  by (simp_all add: io_defs executor_defs world_defs localWrites_def Let_def)

lemma staged_trace:
  "map fst (trace (snd (execute calmWorld fanoutHosts ''A'' stagedPlan initialState)))
   = [Connect 0 (Some (sshTo ''b.example'')),
      Exec 0 ''tar'' [''czvfP'', ''/tmp/backup5772.tar.gz'', ''/etc''],
      GetFile 0 ''/srv/agent/backups/etc_2024-01-31T00:00:00.000Z.tar.gz''
        ''/tmp/backup5772.tar.gz'',
      Connect 1 (Some (sshTo ''c.example'')),
      PutFile 1 ''/srv/agent/backups/etc_2024-01-31T00:00:00.000Z.tar.gz''
        ''/c/etc_2024-01-31T00:00:00.000Z.tar.gz'',
      Dispose 1,
      LocalRm ''/srv/agent/backups/etc_2024-01-31T00:00:00.000Z.tar.gz'',
      Exec 0 ''rm'' [''/tmp/backup5772.tar.gz''],
      Dispose 0]"
  by (simp add: io_defs executor_defs world_defs Let_def)

theorem execute_keeps_local_copy_witness:
  "downloadLocally fanoutClone = DownloadPath ''/local/''
   \<and> fst (execute calmWorld fanoutHosts ''A'' fanoutPlan initialState) = Inr ()
   \<and> (\<exists>remoteFile stamp.
        localWrites (trace (snd (execute calmWorld fanoutHosts ''A'' fanoutPlan initialState)))
          = [GetFile 0 (''/srv/agent/backups/'' @ backupNameOf ''etc'' stamp) remoteFile])
   \<and> localWrites (trace (snd (execute calmWorld fanoutHosts ''A'' fanoutPlan initialState)))
       = [GetFile 0 ''/srv/agent/backups/etc_2024-01-31T00:00:00.000Z.tar.gz''
            ''/tmp/backup5772.tar.gz'']
   \<and> (\<exists>out rest.
      trace (snd (downloadBlock calmWorld fanoutHosts ''A'' sourceExecutor
        ''/tmp/backup5772.tar.gz'' ''etc_2024.tar.gz''
        (stagedClone\<lparr>downloadLocally := DownloadPath ''/local/''\<rparr>) initialState))
      = (GetFile 0 ''/srv/agent/backups/etc_2024.tar.gz'' ''/tmp/backup5772.tar.gz'', out) # rest
      \<and> list_all (\<lambda>e. notLocalRm (fst e)) rest)
   \<and> LocalRm ''/srv/agent/backups/etc_2024-01-31T00:00:00.000Z.tar.gz''
       \<in> fst ` set (trace (snd (execute calmWorld fanoutHosts ''A'' stagedPlan initialState)))
   \<and> downloadLocally stagedClone = DownloadFlag True"
proof -
  let ?F = "execute calmWorld fanoutHosts ''A'' fanoutPlan initialState"
  let ?X = "execute calmWorld fanoutHosts ''A'' stagedPlan initialState"
  let ?Y = "downloadBlock calmWorld fanoutHosts ''A'' sourceExecutor
       ''/tmp/backup5772.tar.gz'' ''etc_2024.tar.gz''
       (stagedClone\<lparr>downloadLocally := DownloadPath ''/local/''\<rparr>) initialState"
  have dl: "downloadLocally fanoutClone = DownloadPath ''/local/''"
    by (simp add: fanoutClone_def)
  have fx: "execute calmWorld fanoutHosts ''A''
      (PlanSshAgent ''etc''
         \<lparr> host_id = ''B'', agent = None, available = Some Reachable,
           ssh = [(''D'', sshTo ''d.example'')] \<rparr>
         None (Files [''/etc'']) fanoutClone) initialState = (Inr (), snd ?F)"
    using fanout_run(1) by (simp add: fanoutPlan_def prod_eq_iff)
  note K = execute_keeps_local_copy [where w = calmWorld and hosts = fanoutHosts
      and agentId = "''A''" and pid = "''etc''" and hks = None and strat = "Files [''/etc'']"
      and h = "\<lparr> host_id = ''B'', agent = None, available = Some Reachable,
                 ssh = [(''D'', sshTo ''d.example'')] \<rparr>"
      and clone = fanoutClone and p = "''/local/''" and s = initialState and u = "()"
      and ?s2.0 = "snd ?F"]
  from K dl fx have "\<exists>remoteFile stamp.
      localWrites (trace (snd ?F))
        = localWrites (trace initialState)
            @ [GetFile (nextSession initialState)
                 (resolve calmWorld (''./backups/'' @ backupNameOf ''etc'' stamp)) remoteFile]"
    by blast
  then have g: "\<exists>remoteFile stamp.
      localWrites (trace (snd ?F))
        = [GetFile 0 (''/srv/agent/backups/'' @ backupNameOf ''etc'' stamp) remoteFile]"
    by (simp add: initialState_def localWrites_def calmWorld_def worldWhere_def)
  have "LocalRm ''/srv/agent/backups/etc_2024-01-31T00:00:00.000Z.tar.gz''
          \<in> set (map fst (trace (snd ?X)))"
    unfolding staged_trace by simp
  then have m: "LocalRm ''/srv/agent/backups/etc_2024-01-31T00:00:00.000Z.tar.gz''
          \<in> fst ` set (trace (snd ?X))" by simp
  then obtain out where
    i: "(LocalRm ''/srv/agent/backups/etc_2024-01-31T00:00:00.000Z.tar.gz'', out)
          \<in> set (trace (snd ?X))"
    by force
  have e: "(LocalRm ''/srv/agent/backups/etc_2024-01-31T00:00:00.000Z.tar.gz'', out)
          \<notin> set (trace initialState)"
    by (simp add: initialState_def)
  have x: "execute calmWorld fanoutHosts ''A''
      (PlanSshAgent ''etc''
         \<lparr> host_id = ''B'', agent = None, available = Some Reachable, ssh = [] \<rparr>
         None (Files [''/etc'']) stagedClone) initialState = (fst ?X, snd ?X)"
    by (simp add: stagedPlan_def)
  have y: "?Y = (fst ?Y, snd ?Y)" by simp
  note T = execute_keeps_local_copy [where w = calmWorld and hosts = fanoutHosts
      and agentId = "''A''" and pid = "''etc''" and hks = None and strat = "Files [''/etc'']"
      and h = "\<lparr> host_id = ''B'', agent = None, available = Some Reachable, ssh = [] \<rparr>"
      and clone = stagedClone and s = initialState and ?r2.0 = "fst ?X" and ?s2.0 = "snd ?X"
      and f = "''/srv/agent/backups/etc_2024-01-31T00:00:00.000Z.tar.gz''" and ?out2.0 = out
      and ex = sourceExecutor and pkgFn = "''/tmp/backup5772.tar.gz''"
      and bn = "''etc_2024.tar.gz''" and p = "''/local/''" and r = "fst ?Y" and s' = "snd ?Y"]
  from T x i e have t: "downloadLocally stagedClone = DownloadFlag True" by blast
  from T y have "\<exists>out rest. trace (snd ?Y) = trace initialState
        @ (GetFile (session sourceExecutor)
             (resolve calmWorld (''./backups/'' @ ''etc_2024.tar.gz'')) ''/tmp/backup5772.tar.gz'', out)
          # rest
      \<and> (\<forall>e \<in> set rest. notLocalRm (fst e))" by blast
  then have "\<exists>out rest. trace (snd ?Y)
        = (GetFile 0 ''/srv/agent/backups/etc_2024.tar.gz'' ''/tmp/backup5772.tar.gz'', out) # rest
      \<and> list_all (\<lambda>e. notLocalRm (fst e)) rest"
    by (simp add: initialState_def sourceExecutor_def calmWorld_def worldWhere_def list_all_iff)
  with dl fanout_run g m t show ?thesis by blast
qed

end
